theory Spec2Isabelle
  imports Main "HOL-Library.Word"
begin

section \<open>Data model\<close>

text \<open>
  The types of \<^verbatim>\<open>FormatHandler.ts\<close> as \<^verbatim>\<open>main.ts\<close> and the handlers use them.
  A \<^verbatim>\<open>Uint8Array\<close> is a list of bytes. Three interfaces have a field called
  \<^verbatim>\<open>name\<close> and two a field called \<^verbatim>\<open>format\<close>; the record fields are renamed
  where they would clash: \<^verbatim>\<open>FileFormat.name\<close> is \<open>fmt_name\<close>, \<^verbatim>\<open>FileFormat.from\<close>
  and \<^verbatim>\<open>FileFormat.to\<close> are \<open>fmt_from\<close> and \<open>fmt_to\<close>, \<^verbatim>\<open>FormatHandler.name\<close> is
  \<open>handler_name\<close>, and \<^verbatim>\<open>ConvertPathNode.format\<close> is \<open>fmt\<close>.
\<close>

type_synonym byte = "8 word"

record FileData =
  name :: string
  bytes :: "byte list"

record FileFormat =
  fmt_name :: string
  format :: string
  extension :: string
  mime :: string
  fmt_from :: bool
  fmt_to :: bool
  internal :: string
  lossless :: bool

text \<open>
  A batch of files is a JavaScript array of objects, handed to \<^verbatim>\<open>doConvert\<close> by
  reference: the handler can write to the array it is given, to the objects in it and to
  their byte buffers, and it can return an array that shares objects or buffers with
  its input. The file arrays therefore live in a store, a list of cells addressed by
  position; a reference \<open>fref\<close> is the position of a cell, and a cell holds what the
  array reads as: its files, with their names and bytes. Allocating an array appends a
  cell. A write through a shared object or buffer is a write to every cell that reads
  it. A reference beyond the store does not occur in the program; it reads as the empty
  batch.
\<close>

type_synonym fref = nat

type_synonym store = "FileData list list"

definition readFiles :: "store \<Rightarrow> fref \<Rightarrow> FileData list" where
  "readFiles st r = (if r < length st then st ! r else [])"

text \<open>
  A handler is an object: \<^verbatim>\<open>===\<close> compares object identity, so a path node holds a
  reference \<open>href\<close> and a table maps each reference to its object. The mutable fields
  of all handlers (\<^verbatim>\<open>ready\<close>, \<^verbatim>\<open>supportedFormats\<close>, private fields) live in a world
  \<open>'w\<close> that only the handlers' own methods write; \<^verbatim>\<open>init\<close> and \<^verbatim>\<open>doConvert\<close> may
  throw (\<open>Inl\<close> the thrown value) and return the world as they left it.
  \<^verbatim>\<open>doConvert\<close> gets the store and the reference of its input batch, and returns the
  reference of its result together with the store as it left it, also when it throws.
  \<^verbatim>\<open>supportedFormats.find(...)!\<close> may be \<^verbatim>\<open>undefined\<close> at run time, so the input
  format that \<^verbatim>\<open>doConvert\<close> receives is an option.
\<close>

type_synonym href = nat

record ConvertPathNode =
  handler :: href
  fmt :: FileFormat

record 'w FormatHandler =
  handler_name :: string
  ready :: "'w \<Rightarrow> bool"
  supportedFormats :: "'w \<Rightarrow> FileFormat list option"
  init :: "'w \<Rightarrow> (string + unit) \<times> 'w"
  doConvert :: "'w \<Rightarrow> store \<Rightarrow> fref \<Rightarrow> FileFormat option \<Rightarrow> FileFormat
                  \<Rightarrow> (string + fref) \<times> store \<times> 'w"

text \<open>
  What the program does to its surroundings, in order: calls of handler methods, calls of
  \<^verbatim>\<open>searchPath\<close>, entries into \<^verbatim>\<open>attemptConvertPath\<close> (where the route label is
  shown) and calls of \<^verbatim>\<open>downloadFile(bytes, name, mime)\<close>. A call of \<^verbatim>\<open>init\<close> is
  recorded with its outcome: \<open>True\<close> when it returned, \<open>False\<close> when it threw.
\<close>

datatype event =
    InitCall href bool
  | ConvertCall href
  | SearchCall ConvertPathNode ConvertPathNode bool
  | Attempt "ConvertPathNode list"
  | Download "byte list" string string

text \<open>
  The module state of \<^verbatim>\<open>main.ts\<close>: \<^verbatim>\<open>window.supportedFormatCache\<close> (a \<^verbatim>\<open>Map\<close> from
  handler name to format list), \<^verbatim>\<open>allOptions\<close>, \<^verbatim>\<open>simpleMode\<close>, the handlers' world,
  the store of file arrays, and the trace of events so far.
\<close>

record 'w state =
  world :: 'w
  heap :: store
  supportedFormatCache :: "string \<Rightarrow> FileFormat list option"
  allOptions :: "ConvertPathNode list"
  simpleMode :: bool
  trace :: "event list"

section \<open>PathExecutor: \<^verbatim>\<open>attemptConvertPath\<close>\<close>

text \<open>
  Lines 788--797 of \<^verbatim>\<open>main.ts\<close>: read the cache, and initialise the handler when it
  is not ready. The result is \<open>None\<close> when \<^verbatim>\<open>init\<close> throws (the function returns
  \<^verbatim>\<open>null\<close>), else the local \<^verbatim>\<open>supportedFormats\<close>.
\<close>

definition prepareHandler ::
  "(href \<Rightarrow> 'w FormatHandler) \<Rightarrow> 'w state \<Rightarrow> href
     \<Rightarrow> FileFormat list option option \<times> 'w state" where
  "prepareHandler H s r =
     (let h = H r; cached = supportedFormatCache s (handler_name h) in
      if \<not> ready h (world s) then
        (case init h (world s) of
           (Inl e, w) \<Rightarrow> (None, s\<lparr>world := w, trace := trace s @ [InitCall r False]\<rparr>)
         | (Inr u, w) \<Rightarrow>
             (case supportedFormats h w of
                Some fs \<Rightarrow>
                  (Some (Some fs),
                   s\<lparr>world := w,
                     supportedFormatCache := (supportedFormatCache s)(handler_name h \<mapsto> fs),
                     trace := trace s @ [InitCall r True]\<rparr>)
              | None \<Rightarrow>
                  (Some cached, s\<lparr>world := w, trace := trace s @ [InitCall r True]\<rparr>)))
      else (Some cached, s))"

text \<open>
  Lines 798--805: the hop proper. Every \<^verbatim>\<open>throw\<close> inside the \<^verbatim>\<open>try\<close> is caught at
  line 806 and the function returns \<^verbatim>\<open>null\<close>. The local \<^verbatim>\<open>files\<close> is a reference: the
  handler is given the array itself, and the local is rebound to the array it returns.
\<close>

definition runConvert ::
  "(href \<Rightarrow> 'w FormatHandler) \<Rightarrow> 'w state \<Rightarrow> FileFormat list option \<Rightarrow> fref
     \<Rightarrow> ConvertPathNode \<Rightarrow> ConvertPathNode \<Rightarrow> fref option \<times> 'w state" where
  "runConvert H s supported files prev nxt =
     (case supported of
        None \<Rightarrow> (None, s)
      | Some fs \<Rightarrow>
          (let inputFormat = find (\<lambda>c. mime c = mime (fmt prev) \<and> fmt_from c) fs;
               s1 = s\<lparr>trace := trace s @ [ConvertCall (handler nxt)]\<rparr> in
           case doConvert (H (handler nxt)) (world s) (heap s) files inputFormat (fmt nxt) of
             (Inl e, st, w) \<Rightarrow> (None, s1\<lparr>world := w, heap := st\<rparr>)
           | (Inr out, st, w) \<Rightarrow>
               if list_ex (\<lambda>c. length (bytes c) = 0) (readFiles st out)
               then (None, s1\<lparr>world := w, heap := st\<rparr>)
               else (Some out, s1\<lparr>world := w, heap := st\<rparr>)))"

definition convertHop ::
  "(href \<Rightarrow> 'w FormatHandler) \<Rightarrow> 'w state \<Rightarrow> fref
     \<Rightarrow> ConvertPathNode \<Rightarrow> ConvertPathNode \<Rightarrow> fref option \<times> 'w state" where
  "convertHop H s files prev nxt =
     (case prepareHandler H s (handler nxt) of
        (None, s1) \<Rightarrow> (None, s1)
      | (Some supported, s1) \<Rightarrow> runConvert H s1 supported files prev nxt)"

text \<open>
  The loop \<^verbatim>\<open>for (let i = 0; i < path.length - 1; i++)\<close> over the hops
  \<^verbatim>\<open>path[i]\<close> \<open>\<rightarrow>\<close> \<^verbatim>\<open>path[i + 1]\<close>; a path with fewer than two nodes has no hop.
\<close>

fun convertHops ::
  "(href \<Rightarrow> 'w FormatHandler) \<Rightarrow> 'w state \<Rightarrow> fref \<Rightarrow> ConvertPathNode list
     \<Rightarrow> fref option \<times> 'w state" where
  "convertHops H s files (prev # nxt # rest) =
     (case convertHop H s files prev nxt of
        (None, s1) \<Rightarrow> (None, s1)
      | (Some out, s1) \<Rightarrow> convertHops H s1 out (nxt # rest))"
| "convertHops H s files path = (Some files, s)"

definition attemptConvertPath ::
  "(href \<Rightarrow> 'w FormatHandler) \<Rightarrow> 'w state \<Rightarrow> fref \<Rightarrow> ConvertPathNode list
     \<Rightarrow> (fref \<times> ConvertPathNode list) option \<times> 'w state" where
  "attemptConvertPath H s files path =
     (case convertHops H (s\<lparr>trace := trace s @ [Attempt path]\<rparr>) files path of
        (None, s1) \<Rightarrow> (None, s1)
      | (Some out, s1) \<Rightarrow> (Some (out, path), s1))"

section \<open>The driving loop: \<^verbatim>\<open>tryConvertByTraversing\<close>\<close>

text \<open>
  Lines 830--833: \<^verbatim>\<open>if (path.at(-1)?.handler === to.handler) path[path.length - 1] = to\<close>.
  For an empty path \<^verbatim>\<open>path.at(-1)\<close> is \<^verbatim>\<open>undefined\<close> and nothing is replaced.
\<close>

definition useExactOutput :: "ConvertPathNode \<Rightarrow> ConvertPathNode list \<Rightarrow> ConvertPathNode list" where
  "useExactOutput to path =
     (if path \<noteq> [] \<and> handler (last path) = handler to
      then path[length path - 1 := to] else path)"

text \<open>
  The \<^verbatim>\<open>for await\<close> loop over the sequence \<^verbatim>\<open>searchPath\<close> yields. The generator is
  pulled one candidate at a time and abandoned at the first success, so the loop is a
  recursion over the list of candidates that does not look at the rest after a success.
  Every attempt is given the same array \<^verbatim>\<open>files\<close>, the caller's.
\<close>

fun tryPaths ::
  "(href \<Rightarrow> 'w FormatHandler) \<Rightarrow> 'w state \<Rightarrow> fref \<Rightarrow> ConvertPathNode
     \<Rightarrow> ConvertPathNode list list
     \<Rightarrow> (fref \<times> ConvertPathNode list) option \<times> 'w state" where
  "tryPaths H s files to [] = (None, s)"
| "tryPaths H s files to (path # paths) =
     (case attemptConvertPath H s files (useExactOutput to path) of
        (Some attempt, s1) \<Rightarrow> (Some attempt, s1)
      | (None, s1) \<Rightarrow> tryPaths H s1 files to paths)"

text \<open>
  \<^verbatim>\<open>TraversionGraph.ts\<close> is not among the sources: \<open>searchPath\<close> is a parameter, the
  function from \<^verbatim>\<open>(from, to, simpleMode)\<close> to the finite sequence of paths that
  \<^verbatim>\<open>window.traversionGraph.searchPath\<close> yields.
\<close>

definition tryConvertByTraversing ::
  "(href \<Rightarrow> 'w FormatHandler)
     \<Rightarrow> (ConvertPathNode \<Rightarrow> ConvertPathNode \<Rightarrow> bool \<Rightarrow> ConvertPathNode list list)
     \<Rightarrow> 'w state \<Rightarrow> fref \<Rightarrow> ConvertPathNode \<Rightarrow> ConvertPathNode
     \<Rightarrow> (fref \<times> ConvertPathNode list) option \<times> 'w state" where
  "tryConvertByTraversing H searchPath s files frm to =
     tryPaths H (s\<lparr>trace := trace s @ [SearchCall frm to (simpleMode s)]\<rparr>) files to
       (searchPath frm to (simpleMode s))"

text \<open>The paths attempted, the handlers initialised, read off a trace.\<close>

fun attempts :: "event list \<Rightarrow> ConvertPathNode list list" where
  "attempts [] = []"
| "attempts (Attempt p # evs) = p # attempts evs"
| "attempts (e # evs) = attempts evs"

text \<open>
  The state that attempting the candidates of a list leaves, one attempt after the other
  and whatever their outcomes; the attempt on the candidate at position \<open>k\<close> is made in
  the state that the attempts on the \<open>k\<close> candidates before it left.
\<close>

fun afterAttempts ::
  "(href \<Rightarrow> 'w FormatHandler) \<Rightarrow> 'w state \<Rightarrow> fref \<Rightarrow> ConvertPathNode
     \<Rightarrow> ConvertPathNode list list \<Rightarrow> 'w state" where
  "afterAttempts H s files to [] = s"
| "afterAttempts H s files to (path # paths) =
     afterAttempts H (snd (attemptConvertPath H s files (useExactOutput to path))) files to paths"

fun initCalls :: "event list \<Rightarrow> href list" where
  "initCalls [] = []"
| "initCalls (InitCall r ok # evs) = r # initCalls evs"
| "initCalls (e # evs) = initCalls evs"

section \<open>FormatCatalog: \<^verbatim>\<open>buildOptionList\<close>\<close>

text \<open>
  Lines 645--654: on a cache miss the handler is initialised; the result is \<open>False\<close>
  when \<^verbatim>\<open>init\<close> throws (\<^verbatim>\<open>continue\<close>).
\<close>

definition cacheFormats ::
  "(href \<Rightarrow> 'w FormatHandler) \<Rightarrow> 'w state \<Rightarrow> href \<Rightarrow> bool \<times> 'w state" where
  "cacheFormats H s r =
     (let h = H r in
      if supportedFormatCache s (handler_name h) = None then
        (case init h (world s) of
           (Inl e, w) \<Rightarrow> (False, s\<lparr>world := w, trace := trace s @ [InitCall r False]\<rparr>)
         | (Inr u, w) \<Rightarrow>
             (case supportedFormats h w of
                Some fs \<Rightarrow>
                  (True,
                   s\<lparr>world := w,
                     supportedFormatCache := (supportedFormatCache s)(handler_name h \<mapsto> fs),
                     trace := trace s @ [InitCall r True]\<rparr>)
              | None \<Rightarrow> (True, s\<lparr>world := w, trace := trace s @ [InitCall r True]\<rparr>)))
      else (True, s))"

text \<open>
  Lines 660--664: every format with a non-empty \<^verbatim>\<open>mime\<close> is pushed to
  \<^verbatim>\<open>allOptions\<close> with its handler. The rest of the inner loop fills the two button
  lists of the page and writes nothing else.
\<close>

definition handlerOptions :: "href \<Rightarrow> FileFormat list \<Rightarrow> ConvertPathNode list" where
  "handlerOptions r fs =
     map (\<lambda>f. \<lparr>handler = r, fmt = f\<rparr>) (filter (\<lambda>f. mime f \<noteq> []) fs)"

text \<open>One turn of \<^verbatim>\<open>for (const handler of handlers)\<close>, lines 644--718.\<close>

definition buildHandler :: "(href \<Rightarrow> 'w FormatHandler) \<Rightarrow> 'w state \<Rightarrow> href \<Rightarrow> 'w state" where
  "buildHandler H s r =
     (case cacheFormats H s r of
        (False, s1) \<Rightarrow> s1
      | (True, s1) \<Rightarrow>
          (case supportedFormatCache s1 (handler_name (H r)) of
             None \<Rightarrow> s1
           | Some fs \<Rightarrow> s1\<lparr>allOptions := allOptions s1 @ handlerOptions r fs\<rparr>))"

fun buildHandlers :: "(href \<Rightarrow> 'w FormatHandler) \<Rightarrow> 'w state \<Rightarrow> href list \<Rightarrow> 'w state" where
  "buildHandlers H s [] = s"
| "buildHandlers H s (r # rs) = buildHandlers H (buildHandler H s r) rs"

text \<open>
  \<open>handlers\<close> is the list exported by \<^verbatim>\<open>handlers/index.ts\<close>.
  \<^verbatim>\<open>allOptions.length = 0\<close> empties the list first. The closing call
  \<^verbatim>\<open>window.traversionGraph.init()\<close> rebuilds the graph inside the absent
  \<^verbatim>\<open>TraversionGraph.ts\<close>; it is seen here only through \<open>searchPath\<close>.
\<close>

definition buildOptionList :: "(href \<Rightarrow> 'w FormatHandler) \<Rightarrow> href list \<Rightarrow> 'w state \<Rightarrow> 'w state" where
  "buildOptionList H handlers s = buildHandlers H (s\<lparr>allOptions := []\<rparr>) handlers"

section \<open>\<^verbatim>\<open>LazyHandler\<close>\<close>

text \<open>
  The wrapper class of \<^verbatim>\<open>handlers/index.ts\<close>. Its fields are \<^verbatim>\<open>ready\<close>,
  \<^verbatim>\<open>supportedFormats\<close> and the private \<^verbatim>\<open>#instance\<close> (\<open>None\<close> while undefined), which
  holds the state of the wrapped handler; \<open>innerInits\<close> counts the calls of the wrapped
  handler's \<^verbatim>\<open>init\<close>. The wrapped class is a handler \<open>inner\<close> over its own state, and
  \<open>imported\<close> is what \<^verbatim>\<open>new (await this.#importFn()).default()\<close> gives: the fresh
  instance, or \<open>Inl\<close> when the import or the constructor throws.
\<close>

record 'i LazyState =
  lazy_ready :: bool
  lazy_supportedFormats :: "FileFormat list option"
  lazy_instance :: "'i option"
  innerInits :: nat

text \<open>Lines 45--47 and 52--54 of the unnamed source file: initialise and copy the fields.\<close>

definition initInstance ::
  "'i FormatHandler \<Rightarrow> 'i LazyState \<Rightarrow> 'i \<Rightarrow> (string + unit) \<times> 'i LazyState" where
  "initInstance inner L i =
     (case init inner i of
        (Inl e, i') \<Rightarrow> (Inl e, L\<lparr>lazy_instance := Some i', innerInits := innerInits L + 1\<rparr>)
      | (Inr u, i') \<Rightarrow>
          (Inr (),
           L\<lparr>lazy_ready := ready inner i',
             lazy_supportedFormats := supportedFormats inner i',
             lazy_instance := Some i',
             innerInits := innerInits L + 1\<rparr>))"

definition LazyHandler_init ::
  "(string + 'i) \<Rightarrow> 'i FormatHandler \<Rightarrow> 'i LazyState \<Rightarrow> (string + unit) \<times> 'i LazyState" where
  "LazyHandler_init imported inner L =
     (case lazy_instance L of
        Some i \<Rightarrow>
          if \<not> ready inner i then initInstance inner L i
          else (Inr (),
                L\<lparr>lazy_ready := ready inner i, lazy_supportedFormats := supportedFormats inner i\<rparr>)
      | None \<Rightarrow>
          (case imported of
             Inl e \<Rightarrow> (Inl e, L)
           | Inr i \<Rightarrow> initInstance inner (L\<lparr>lazy_instance := Some i\<rparr>) i))"

text \<open>
  Lines 57--67. After a successful \<^verbatim>\<open>init\<close> the instance is set; the branch for an
  undefined instance stands for the \<^verbatim>\<open>TypeError\<close> of \<^verbatim>\<open>this.#instance!.doConvert\<close>.
\<close>

definition LazyHandler_doConvert ::
  "(string + 'i) \<Rightarrow> 'i FormatHandler \<Rightarrow> 'i LazyState \<Rightarrow> store \<Rightarrow> fref \<Rightarrow> FileFormat option
     \<Rightarrow> FileFormat \<Rightarrow> (string + fref) \<times> store \<times> 'i LazyState" where
  "LazyHandler_doConvert imported inner L st inputFiles inputFormat outputFormat =
     (case (if lazy_instance L = None \<or> \<not> lazy_ready L then LazyHandler_init imported inner L
            else (Inr (), L)) of
        (Inl e, L1) \<Rightarrow> (Inl e, st, L1)
      | (Inr u, L1) \<Rightarrow>
          (case lazy_instance L1 of
             None \<Rightarrow> (Inl ''TypeError'', st, L1)
           | Some i \<Rightarrow>
               (case doConvert inner i st inputFiles inputFormat outputFormat of
                  (res, st1, i') \<Rightarrow> (res, st1, L1\<lparr>lazy_instance := Some i'\<rparr>))))"

definition LazyHandler :: "string \<Rightarrow> (string + 'i) \<Rightarrow> 'i FormatHandler \<Rightarrow> 'i LazyState FormatHandler" where
  "LazyHandler n imported inner =
     \<lparr>handler_name = n, ready = lazy_ready, supportedFormats = lazy_supportedFormats,
      init = LazyHandler_init imported inner,
      doConvert = LazyHandler_doConvert imported inner\<rparr>"

text \<open>The constructor, lines 33--41: not ready, no formats, no instance.\<close>

definition newLazyState :: "'i LazyState" where
  "newLazyState =
     \<lparr>lazy_ready = False, lazy_supportedFormats = None, lazy_instance = None, innerInits = 0\<rparr>"

section \<open>The batch conversion of \<^verbatim>\<open>ui.convertButton.onclick\<close>\<close>

text \<open>
  A \<^verbatim>\<open>BatchFile\<close> is a browser \<^verbatim>\<open>File\<close>, of which the flow reads the name and the
  content (\<^verbatim>\<open>await file.arrayBuffer()\<close>), and the optional index of a per-file output
  format; the field \<^verbatim>\<open>file\<close> is called \<open>srcFile\<close>, since \<open>file\<close> is a keyword.
  An element of \<^verbatim>\<open>allOutputFiles\<close> is a name, a payload and a MIME type.
\<close>

record BatchFile =
  srcFile :: FileData
  outputFormatIndex :: "nat option"

record OutputFile =
  out_name :: string
  out_bytes :: "byte list"
  out_mime :: string

text \<open>The locals \<^verbatim>\<open>completedFiles\<close>, \<^verbatim>\<open>failedFiles\<close> and \<^verbatim>\<open>allOutputFiles\<close>.\<close>

record progress =
  completedFiles :: nat
  failedFiles :: nat
  allOutputFiles :: "OutputFile list"

text \<open>
  String helpers. A character is a code unit below 256, and \<^verbatim>\<open>toLowerCase\<close> maps the
  capital letters among them, \<open>A\<close> to \<open>Z\<close> and the Latin-1 capitals \<open>0xC0\<close> to \<open>0xDE\<close>
  without the multiplication sign \<open>0xD7\<close>, to the letter 32 places up; the decimal digits of
  \<^verbatim>\<open>${fi + 1}\<close>; and the match of the regular expression \<^verbatim>\<open>/\.([^.]+)$/\<close>, which
  splits a string at its last dot when at least one character follows that dot.
\<close>

definition toLowerCase :: "string \<Rightarrow> string" where
  "toLowerCase =
     map (\<lambda>c. let n = (of_char c :: nat) in
            if (65 \<le> n \<and> n \<le> 90) \<or> (192 \<le> n \<and> n \<le> 222 \<and> n \<noteq> 215)
            then char_of (n + 32) else c)"

fun showNat :: "nat \<Rightarrow> string" where
  "showNat n =
     (if n < 10 then [char_of (48 + n)] else showNat (n div 10) @ [char_of (48 + n mod 10)])"

declare showNat.simps [simp del]

definition matchLastExtension :: "string \<Rightarrow> (string \<times> string) option" where
  "matchLastExtension x =
     (let r = rev x; ext = takeWhile (\<lambda>c. c \<noteq> CHR ''.'') r;
          stem = dropWhile (\<lambda>c. c \<noteq> CHR ''.'') r in
      if ext \<noteq> [] \<and> stem \<noteq> [] then Some (rev (tl stem), rev ext) else None)"

text \<open>
  Lines 857--861, \<^verbatim>\<open>buildOutputFilename\<close>: \<^verbatim>\<open>lastIndexOf('.')\<close> is the length of what
  precedes the last dot, and \<open>-1\<close> when there is no dot.
\<close>

definition buildOutputFilename :: "string \<Rightarrow> string \<Rightarrow> string" where
  "buildOutputFilename originalName outputExtension =
     (let stem = dropWhile (\<lambda>c. c \<noteq> CHR ''.'') (rev originalName);
          baseName = (if stem \<noteq> [] \<and> length stem - 1 > 0
                      then take (length stem - 1) originalName else originalName)
      in baseName @ ''.'' @ toLowerCase outputExtension)"

text \<open>
  Lines 1070--1076: the names of the files of one output, numbered from 1 when there is
  more than one.
\<close>

definition outputFiles :: "string \<Rightarrow> FileFormat \<Rightarrow> FileData list \<Rightarrow> OutputFile list" where
  "outputFiles inputName outputFormat files =
     (let outputExt = (if extension outputFormat \<noteq> [] then extension outputFormat
                       else format outputFormat);
          plain = buildOutputFilename inputName outputExt in
      map (\<lambda>(fi, f).
             \<lparr>out_name =
                (if length files = 1 then plain
                 else (case matchLastExtension plain of
                         Some (b, e) \<Rightarrow> b @ ''_'' @ showNat (fi + 1) @ ''.'' @ e
                       | None \<Rightarrow> plain)),
              out_bytes = bytes f, out_mime = mime outputFormat\<rparr>)
          (enumerate 0 files))"

text \<open>
  Lines 1032--1034: the per-file override wins; \<^verbatim>\<open>allOptions[i]\<close> is \<^verbatim>\<open>undefined\<close>
  out of range.
\<close>

definition fileOutputOption ::
  "'w state \<Rightarrow> ConvertPathNode option \<Rightarrow> BatchFile \<Rightarrow> ConvertPathNode option" where
  "fileOutputOption s globalOutputOption bf =
     (case outputFormatIndex bf of
        Some i \<Rightarrow> if i < length (allOptions s) then Some (allOptions s ! i) else None
      | None \<Rightarrow> globalOutputOption)"

text \<open>
  Lines 1029--1079, one turn of the loop after the cancellation check. \<open>inputOption\<close>
  and \<open>globalOutputOption\<close> are the options that the selected buttons of the two lists
  stand for (lines 1001--1010). Line 1058 allocates the array \<^verbatim>\<open>inputFileData\<close>, whose
  reference is the next free cell of the store; the names and bytes of the output are
  read from the array that the successful attempt returned.
\<close>

definition convertFile ::
  "(href \<Rightarrow> 'w FormatHandler)
     \<Rightarrow> (ConvertPathNode \<Rightarrow> ConvertPathNode \<Rightarrow> bool \<Rightarrow> ConvertPathNode list list)
     \<Rightarrow> ConvertPathNode \<Rightarrow> ConvertPathNode option \<Rightarrow> 'w state \<Rightarrow> progress \<Rightarrow> BatchFile
     \<Rightarrow> 'w state \<times> progress" where
  "convertFile H searchPath inputOption globalOutputOption s p bf =
     (case fileOutputOption s globalOutputOption bf of
        None \<Rightarrow>
          (s, p\<lparr>failedFiles := failedFiles p + 1, completedFiles := completedFiles p + 1\<rparr>)
      | Some outputOption \<Rightarrow>
          (let outputFormat = fmt outputOption; inputBytes = bytes (srcFile bf) in
           if mime (fmt inputOption) = mime outputFormat then
             (s\<lparr>trace := trace s @
                  [Download inputBytes (name (srcFile bf)) (mime (fmt inputOption))]\<rparr>,
              p\<lparr>completedFiles := completedFiles p + 1\<rparr>)
           else
             (case tryConvertByTraversing H searchPath
                     (s\<lparr>heap := heap s @ [[\<lparr>name = name (srcFile bf), bytes = inputBytes\<rparr>]]\<rparr>)
                     (length (heap s)) inputOption outputOption of
                (None, s1) \<Rightarrow>
                  (s1, p\<lparr>failedFiles := failedFiles p + 1,
                          completedFiles := completedFiles p + 1\<rparr>)
              | (Some output, s1) \<Rightarrow>
                  (s1, p\<lparr>allOutputFiles := allOutputFiles p @
                            outputFiles (name (srcFile bf)) outputFormat
                              (readFiles (heap s1) (fst output)),
                          completedFiles := completedFiles p + 1\<rparr>))))"

text \<open>
  The loop of lines 1025--1080. \<^verbatim>\<open>conversionCancelled\<close> is set by the click handler of
  the Cancel button, which can only run while the flow is suspended at an \<^verbatim>\<open>await\<close>.
  All the \<^verbatim>\<open>await\<close>s of a turn are inside the conversion of its file, so each batch
  file comes with one boolean input: whether Cancel is clicked while that file is in
  flight. The flag is read once per turn, at line 1027, before the file is touched.
\<close>

fun convertBatch ::
  "(href \<Rightarrow> 'w FormatHandler)
     \<Rightarrow> (ConvertPathNode \<Rightarrow> ConvertPathNode \<Rightarrow> bool \<Rightarrow> ConvertPathNode list list)
     \<Rightarrow> ConvertPathNode \<Rightarrow> ConvertPathNode option \<Rightarrow> bool \<Rightarrow> 'w state \<Rightarrow> progress
     \<Rightarrow> (BatchFile \<times> bool) list \<Rightarrow> bool \<times> 'w state \<times> progress" where
  "convertBatch H searchPath inputOption globalOutputOption conversionCancelled s p [] =
     (conversionCancelled, s, p)"
| "convertBatch H searchPath inputOption globalOutputOption conversionCancelled s p
     ((bf, clicked) # rest) =
     (if conversionCancelled then (conversionCancelled, s, p)
      else (case convertFile H searchPath inputOption globalOutputOption s p bf of
              (s1, p1) \<Rightarrow>
                convertBatch H searchPath inputOption globalOutputOption
                  (conversionCancelled \<or> clicked) s1 p1 rest))"

definition downloadAll :: "OutputFile list \<Rightarrow> event list" where
  "downloadAll fs = map (\<lambda>f. Download (out_bytes f) (out_name f) (out_mime f)) fs"

text \<open>
  Lines 1012--1127 for a non-empty batch outside merge mode. \<^verbatim>\<open>buildProgressPopup\<close>
  resets the flag; \<open>clickedEarly\<close> says whether Cancel is clicked during the \<^verbatim>\<open>await\<close> of
  line 1021. \<open>zipChecked\<close> is \<^verbatim>\<open>ui.zipToggle.checked\<close>, and \<open>generateZip\<close> stands for the
  archive that the JSZip library builds. The popups and the progress bar are left out.
\<close>

definition convertButton_onclick ::
  "(href \<Rightarrow> 'w FormatHandler)
     \<Rightarrow> (ConvertPathNode \<Rightarrow> ConvertPathNode \<Rightarrow> bool \<Rightarrow> ConvertPathNode list list)
     \<Rightarrow> (OutputFile list \<Rightarrow> byte list) \<Rightarrow> bool
     \<Rightarrow> ConvertPathNode \<Rightarrow> ConvertPathNode option \<Rightarrow> bool \<Rightarrow> 'w state
     \<Rightarrow> (BatchFile \<times> bool) list \<Rightarrow> 'w state" where
  "convertButton_onclick H searchPath generateZip zipChecked inputOption globalOutputOption
     clickedEarly s batchFiles =
     (case convertBatch H searchPath inputOption globalOutputOption clickedEarly s
             \<lparr>completedFiles = 0, failedFiles = 0, allOutputFiles = []\<rparr> batchFiles of
        (conversionCancelled, s1, p) \<Rightarrow>
          if conversionCancelled then s1\<lparr>trace := trace s1 @ downloadAll (allOutputFiles p)\<rparr>
          else if zipChecked \<and> length (allOutputFiles p) \<ge> 2 then
            s1\<lparr>trace := trace s1 @
              [Download (generateZip (allOutputFiles p))
                 ((let first = (case batchFiles of [] \<Rightarrow> [] | (bf, c) # rest \<Rightarrow>
                                   (case matchLastExtension (name (srcFile bf)) of
                                      Some (b, e) \<Rightarrow> b | None \<Rightarrow> name (srcFile bf)))
                   in if first = [] then ''converted'' else first) @ ''_converted.zip'')
                 ''application/zip'']\<rparr>
          else s1\<lparr>trace := trace s1 @ downloadAll (allOutputFiles p)\<rparr>)"

section \<open>The merge flow: \<^verbatim>\<open>handleMergeConvert\<close>\<close>

text \<open>Lines 118--120.\<close>

definition isImageType :: "string \<Rightarrow> bool" where
  "isImageType m =
     (m \<in> set [''image/jpeg'', ''image/png'', ''image/webp'', ''image/gif'', ''image/svg+xml''])"

text \<open>
  Line 930, \<^verbatim>\<open>if (!mergeHandler.ready) await mergeHandler.init()\<close>: the result is \<open>False\<close>
  when \<^verbatim>\<open>init\<close> throws. The cache is not written here.
\<close>

definition initMergeHandler ::
  "(href \<Rightarrow> 'w FormatHandler) \<Rightarrow> 'w state \<Rightarrow> href \<Rightarrow> bool \<times> 'w state" where
  "initMergeHandler H s m =
     (if \<not> ready (H m) (world s) then
        (case init (H m) (world s) of
           (Inl e, w) \<Rightarrow> (False, s\<lparr>world := w, trace := trace s @ [InitCall m False]\<rparr>)
         | (Inr u, w) \<Rightarrow> (True, s\<lparr>world := w, trace := trace s @ [InitCall m True]\<rparr>))
      else (True, s))"

text \<open>
  Lines 917--988, which the click on the convert button runs in merge mode. Each batch
  file comes with its \<^verbatim>\<open>file.type\<close>. \<open>normalizeMimeType\<close> is the function of the absent
  \<^verbatim>\<open>normalizeMimeType.js\<close>. Every \<^verbatim>\<open>throw\<close> inside the \<^verbatim>\<open>try\<close> (no handler of that
  name, a throwing \<^verbatim>\<open>init\<close>, undefined \<^verbatim>\<open>supportedFormats\<close>, a missing format, a
  throwing \<^verbatim>\<open>doConvert\<close>) is caught at line 983 and ends the flow. \<open>cancelled\<close> says that
  Cancel has been clicked before line 959 is reached; the flow then leaves at line 936,
  954 or 959 with nothing more done. The array \<^verbatim>\<open>inputFileData\<close> is allocated in the
  store when it is handed to \<^verbatim>\<open>doConvert\<close>. The popups and the progress bar are left
  out.
\<close>

definition handleMergeConvert ::
  "(href \<Rightarrow> 'w FormatHandler) \<Rightarrow> href list \<Rightarrow> (string \<Rightarrow> string) \<Rightarrow> 'w state
     \<Rightarrow> (BatchFile \<times> string) list \<Rightarrow> bool \<Rightarrow> 'w state" where
  "handleMergeConvert H handlers normalizeMimeType s batchFiles cancelled =
     (let imageFiles = filter (\<lambda>(bf, ty). isImageType ty) batchFiles in
      if length imageFiles < 2 then s
      else
        (case find (\<lambda>h. handler_name (H h) = ''imagesToPdf'') handlers of
           None \<Rightarrow> s
         | Some m \<Rightarrow>
             (case initMergeHandler H s m of
                (False, s1) \<Rightarrow> s1
              | (True, s1) \<Rightarrow>
                  if cancelled then s1
                  else
                    (case supportedFormats (H m) (world s1) of
                       None \<Rightarrow> s1
                     | Some fs \<Rightarrow>
                         (let firstMime = normalizeMimeType (snd (hd imageFiles)) in
                          case (find (\<lambda>f. mime f = firstMime \<and> fmt_from f) fs,
                                find (\<lambda>f. internal f = ''pdf'' \<and> fmt_to f) fs) of
                            (Some inputFormat, Some outputFormat) \<Rightarrow>
                              (case doConvert (H m) (world s1)
                                      (heap s1 @ [map (\<lambda>(bf, ty). srcFile bf) imageFiles])
                                      (length (heap s1)) (Some inputFormat) outputFormat of
                                 (Inl e, st, w) \<Rightarrow>
                                   s1\<lparr>world := w, heap := st,
                                      trace := trace s1 @ [ConvertCall m]\<rparr>
                               | (Inr result, st, w) \<Rightarrow>
                                   s1\<lparr>world := w, heap := st,
                                      trace := trace s1 @ ConvertCall m #
                                        map (\<lambda>f. Download (bytes f) (name f) ''application/pdf'')
                                          (readFiles st result)\<rparr>)
                          | (_, _) \<Rightarrow> s1)))))"

section \<open>The operations of the page\<close>

text \<open>
  What runs handler code in \<^verbatim>\<open>main.ts\<close>: \<^verbatim>\<open>buildOptionList\<close> as the page calls it once
  it is loaded (line 742, after the cache has been seeded), the click on the mode button,
  which flips \<^verbatim>\<open>simpleMode\<close> and builds the list again (lines 761--771), and the click
  on the convert button with its inputs, outside merge mode and in merge mode (lines
  996--999). \<open>handlers\<close> is the exported handler list. An operation runs to its end
  before the next one starts.
\<close>

datatype operation =
    BuildOptions
  | ToggleMode
  | ClickConvert bool ConvertPathNode "ConvertPathNode option" bool "(BatchFile \<times> bool) list"
  | ClickMerge "(BatchFile \<times> string) list" bool

fun runOperation ::
  "(href \<Rightarrow> 'w FormatHandler) \<Rightarrow> href list \<Rightarrow> (string \<Rightarrow> string)
     \<Rightarrow> (ConvertPathNode \<Rightarrow> ConvertPathNode \<Rightarrow> bool \<Rightarrow> ConvertPathNode list list)
     \<Rightarrow> (OutputFile list \<Rightarrow> byte list) \<Rightarrow> 'w state \<Rightarrow> operation \<Rightarrow> 'w state" where
  "runOperation H handlers normalizeMimeType searchPath generateZip s BuildOptions =
     buildOptionList H handlers s"
| "runOperation H handlers normalizeMimeType searchPath generateZip s ToggleMode =
     buildOptionList H handlers (s\<lparr>simpleMode := \<not> simpleMode s\<rparr>)"
| "runOperation H handlers normalizeMimeType searchPath generateZip s
     (ClickConvert zipChecked inputOption globalOutputOption clickedEarly batchFiles) =
     convertButton_onclick H searchPath generateZip zipChecked inputOption globalOutputOption
       clickedEarly s batchFiles"
| "runOperation H handlers normalizeMimeType searchPath generateZip s
     (ClickMerge batchFiles cancelled) =
     handleMergeConvert H handlers normalizeMimeType s batchFiles cancelled"

fun runOperations ::
  "(href \<Rightarrow> 'w FormatHandler) \<Rightarrow> href list \<Rightarrow> (string \<Rightarrow> string)
     \<Rightarrow> (ConvertPathNode \<Rightarrow> ConvertPathNode \<Rightarrow> bool \<Rightarrow> ConvertPathNode list list)
     \<Rightarrow> (OutputFile list \<Rightarrow> byte list) \<Rightarrow> 'w state \<Rightarrow> operation list \<Rightarrow> 'w state" where
  "runOperations H handlers normalizeMimeType searchPath generateZip s [] = s"
| "runOperations H handlers normalizeMimeType searchPath generateZip s (x # xs) =
     runOperations H handlers normalizeMimeType searchPath generateZip
       (runOperation H handlers normalizeMimeType searchPath generateZip s x) xs"

text \<open>
  Whether a trace holds a call of \<^verbatim>\<open>init\<close> on handler \<open>r\<close> after a call of it that
  returned; \<open>seen\<close> says that such a call has already been passed.
\<close>

fun initAfterSuccess :: "href \<Rightarrow> bool \<Rightarrow> event list \<Rightarrow> bool" where
  "initAfterSuccess r seen [] = False"
| "initAfterSuccess r seen (InitCall q ok # evs) =
     (if q = r then seen \<or> initAfterSuccess r (seen \<or> ok) evs
      else initAfterSuccess r seen evs)"
| "initAfterSuccess r seen (e # evs) = initAfterSuccess r seen evs"

text \<open>
  The step invariant behind the claim on repeated initialisation, for a handler \<open>r\<close>
  between a state \<open>s\<close> and a later state \<open>s'\<close>: the trace has grown; a cache entry under
  the name of \<open>r\<close> stays; when \<open>r\<close> is cached and ready it stays ready and is not
  initialised; and when \<open>r\<close> is cached or is not the merge handler, the new events hold no
  call of its \<^verbatim>\<open>init\<close> after one that returned, and one that returned leaves it cached
  and ready.
\<close>

definition initOnceStep :: "(href \<Rightarrow> 'w FormatHandler) \<Rightarrow> href \<Rightarrow> 'w state \<Rightarrow> 'w state \<Rightarrow> bool" where
  "initOnceStep H r s s' =
     (\<exists>evs. trace s' = trace s @ evs
        \<and> (supportedFormatCache s (handler_name (H r)) \<noteq> None \<longrightarrow>
             supportedFormatCache s' (handler_name (H r)) \<noteq> None)
        \<and> (supportedFormatCache s (handler_name (H r)) \<noteq> None \<and> ready (H r) (world s) \<longrightarrow>
             ready (H r) (world s') \<and> r \<notin> set (initCalls evs))
        \<and> (supportedFormatCache s (handler_name (H r)) \<noteq> None
            \<or> handler_name (H r) \<noteq> ''imagesToPdf'' \<longrightarrow>
             \<not> initAfterSuccess r False evs
             \<and> (InitCall r True \<in> set evs \<longrightarrow>
                  supportedFormatCache s' (handler_name (H r)) \<noteq> None
                  \<and> ready (H r) (world s'))))"

section \<open>The handler \<^verbatim>\<open>pdftoimg\<close>\<close>

text \<open>
  \<^verbatim>\<open>PDF_QUALITY_PRESETS\<close>; the JPEG quality is kept in hundredths. \<^verbatim>\<open>setPdfQualityPreset\<close>
  clamps the index, so \<^verbatim>\<open>getPdfQualityPreset\<close> always reads inside the table.
\<close>

record PdfQualityPreset =
  label :: string
  scale :: nat
  quality :: nat
  estimateKb :: string

definition PDF_QUALITY_PRESETS :: "PdfQualityPreset list" where
  "PDF_QUALITY_PRESETS =
     [\<lparr>label = ''Low'', scale = 1, quality = 70, estimateKb = ''~80 KB/page''\<rparr>,
      \<lparr>label = ''Medium'', scale = 2, quality = 85, estimateKb = ''~250 KB/page''\<rparr>,
      \<lparr>label = ''High'', scale = 3, quality = 95, estimateKb = ''~600 KB/page''\<rparr>,
      \<lparr>label = ''Max'', scale = 4, quality = 100, estimateKb = ''~1.2 MB/page''\<rparr>]"

definition setPdfQualityPreset :: "int \<Rightarrow> nat" where
  "setPdfQualityPreset index = nat (max 0 (min index (int (length PDF_QUALITY_PRESETS) - 1)))"

definition getPdfQualityPreset :: "nat \<Rightarrow> PdfQualityPreset" where
  "getPdfQualityPreset activePresetIndex = PDF_QUALITY_PRESETS ! activePresetIndex"

text \<open>
  \<^verbatim>\<open>String.indexOf\<close>, and \<^verbatim>\<open>base64ToBytes\<close>: \<open>atob\<close> is the browser's decoder, which
  throws on malformed input, and each character code of its result is one byte.
\<close>

fun indexOf :: "string \<Rightarrow> string \<Rightarrow> nat \<Rightarrow> int" where
  "indexOf needle [] i = (if needle = [] then int i else - 1)"
| "indexOf needle (c # cs) i =
     (if take (length needle) (c # cs) = needle then int i else indexOf needle cs (i + 1))"

definition base64ToBytes :: "(string \<Rightarrow> string + string) \<Rightarrow> string \<Rightarrow> string + byte list" where
  "base64ToBytes atob base64 =
     (case atob base64 of
        Inl e \<Rightarrow> Inl e
      | Inr binaryString \<Rightarrow> Inr (map (\<lambda>c. of_nat (of_char c)) binaryString))"

text \<open>Lines 86--91: the pages of one input file, numbered from 0.\<close>

fun pageFiles ::
  "(string \<Rightarrow> string + string) \<Rightarrow> string \<Rightarrow> string \<Rightarrow> nat \<Rightarrow> string list
     \<Rightarrow> string + FileData list" where
  "pageFiles atob baseName ext i [] = Inr []"
| "pageFiles atob baseName ext i (img # images) =
     (case base64ToBytes atob (drop (nat (indexOf '';base64,'' img 0 + 8)) img) of
        Inl e \<Rightarrow> Inl e
      | Inr bs \<Rightarrow>
          (case pageFiles atob baseName ext (i + 1) images of
             Inl e \<Rightarrow> Inl e
           | Inr fs \<Rightarrow> Inr (\<lparr>name = baseName @ ''_'' @ showNat i @ ''.'' @ ext, bytes = bs\<rparr> # fs)))"

text \<open>
  Lines 70--93: the loop over the input files. \<open>pdfToImg\<close> is the library function of
  \<^verbatim>\<open>pdftoimg-js\<close>, given the bytes and the MIME type of the blob, the image type and the
  preset; it returns the pages as data URLs or throws. Reading \<^verbatim>\<open>inputFormat.mime\<close> of
  an undefined input format throws a \<^verbatim>\<open>TypeError\<close>.
\<close>

fun renderFiles ::
  "(byte list \<Rightarrow> string \<Rightarrow> string \<Rightarrow> PdfQualityPreset \<Rightarrow> string + string list)
     \<Rightarrow> (string \<Rightarrow> string + string) \<Rightarrow> PdfQualityPreset \<Rightarrow> FileFormat option \<Rightarrow> FileFormat
     \<Rightarrow> FileData list \<Rightarrow> string + FileData list" where
  "renderFiles pdfToImg atob preset inputFormat outputFormat [] = Inr []"
| "renderFiles pdfToImg atob preset inputFormat outputFormat (inputFile # inputFiles) =
     (case inputFormat of
        None \<Rightarrow> Inl ''TypeError''
      | Some inF \<Rightarrow>
          (case pdfToImg (bytes inputFile) (mime inF) (format outputFormat) preset of
             Inl e \<Rightarrow> Inl e
           | Inr images \<Rightarrow>
               (case pageFiles atob (takeWhile (\<lambda>c. c \<noteq> CHR ''.'') (name inputFile))
                       (extension outputFormat) 0 images of
                  Inl e \<Rightarrow> Inl e
                | Inr pages \<Rightarrow>
                    (case renderFiles pdfToImg atob preset inputFormat outputFormat inputFiles of
                       Inl e \<Rightarrow> Inl e
                     | Inr others \<Rightarrow> Inr (pages @ others)))))"

text \<open>Lines 56--97, \<^verbatim>\<open>pdftoimgHandler.doConvert\<close>.\<close>

definition pdftoimg_doConvert ::
  "(byte list \<Rightarrow> string \<Rightarrow> string \<Rightarrow> PdfQualityPreset \<Rightarrow> string + string list)
     \<Rightarrow> (string \<Rightarrow> string + string) \<Rightarrow> nat \<Rightarrow> FileData list \<Rightarrow> FileFormat option \<Rightarrow> FileFormat
     \<Rightarrow> string + FileData list" where
  "pdftoimg_doConvert pdfToImg atob activePresetIndex inputFiles inputFormat outputFormat =
     (if format outputFormat \<noteq> ''png'' \<and> format outputFormat \<noteq> ''jpg''
      then Inl ''Invalid output format.''
      else renderFiles pdfToImg atob (getPdfQualityPreset activePresetIndex) inputFormat
             outputFormat inputFiles)"

text \<open>
  The handler object, lines 40--54: always ready, \<^verbatim>\<open>init\<close> only sets \<^verbatim>\<open>ready\<close>. Its world
  is the active preset index. \<^verbatim>\<open>CommonFormats.ts\<close> is not among the sources, so the three
  descriptors that \<^verbatim>\<open>supportedFormats\<close> declares are parameters. \<^verbatim>\<open>doConvert\<close> reads its
  input and writes to none of it; its result is a new array.
\<close>

definition pdftoimgHandler ::
  "(byte list \<Rightarrow> string \<Rightarrow> string \<Rightarrow> PdfQualityPreset \<Rightarrow> string + string list)
     \<Rightarrow> (string \<Rightarrow> string + string) \<Rightarrow> FileFormat \<Rightarrow> FileFormat \<Rightarrow> FileFormat
     \<Rightarrow> nat FormatHandler" where
  "pdftoimgHandler pdfToImg atob pdf png jpeg =
     \<lparr>handler_name = ''pdftoimg'', ready = (\<lambda>w. True),
      supportedFormats = (\<lambda>w. Some [pdf, png, jpeg]),
      init = (\<lambda>w. (Inr (), w)),
      doConvert = (\<lambda>w st inputFiles inputFormat outputFormat.
        case pdftoimg_doConvert pdfToImg atob w (readFiles st inputFiles) inputFormat
               outputFormat of
          Inl e \<Rightarrow> (Inl e, st, w)
        | Inr pages \<Rightarrow> (Inr (length st), st @ [pages], w))\<rparr>"

section \<open>Example values\<close>

text \<open>
  A small handler table over a trivial world, for the concrete instances below. Handler 0
  copies its input, handler 1 returns one file with no bytes, handler 2 declares no input
  format and prefixes a byte to each file, and handler 3 is not ready and its \<^verbatim>\<open>init\<close>
  throws. Handler 5 hands the byte buffers of its input over to a worker, which leaves
  them detached, of length 0, and then throws. The \<^verbatim>\<open>init\<close> of handler 6 returns and
  leaves the handler not ready, that of handler 7 returns and leaves
  \<^verbatim>\<open>supportedFormats\<close> undefined. Every other handler throws in \<^verbatim>\<open>doConvert\<close>. The
  handlers other than 5 write to no array they did not allocate. In the example state
  the caller's batch, one PNG file, is cell 0 of the store.
\<close>

definition ex_png :: FileFormat where
  "ex_png = \<lparr>fmt_name = ''Portable Network Graphics'', format = ''png'', extension = ''png'',
     mime = ''image/png'', fmt_from = True, fmt_to = True, internal = ''png'', lossless = True\<rparr>"

definition ex_jpeg :: FileFormat where
  "ex_jpeg = \<lparr>fmt_name = ''JPEG'', format = ''jpeg'', extension = ''jpg'',
     mime = ''image/jpeg'', fmt_from = False, fmt_to = True, internal = ''jpeg'', lossless = False\<rparr>"

definition ex_handler :: "string \<Rightarrow> bool \<Rightarrow> FileFormat list option \<Rightarrow> (string + unit)
    \<Rightarrow> (FileData list \<Rightarrow> string + FileData list) \<Rightarrow> unit FormatHandler" where
  "ex_handler n rdy fs i conv =
     \<lparr>handler_name = n, ready = (\<lambda>w. rdy), supportedFormats = (\<lambda>w. fs),
      init = (\<lambda>w. (i, w)),
      doConvert = (\<lambda>w st files inF outF.
        case conv (readFiles st files) of
          Inl e \<Rightarrow> (Inl e, st, w)
        | Inr out \<Rightarrow> (Inr (length st), st @ [out], w))\<rparr>"

definition ex_H :: "href \<Rightarrow> unit FormatHandler" where
  "ex_H r =
     (if r = 0 then ex_handler ''canvas'' True (Some [ex_png]) (Inr ()) (\<lambda>files. Inr files)
      else if r = 1 then
        ex_handler ''blank'' True (Some [ex_png, ex_jpeg]) (Inr ())
          (\<lambda>files. Inr [\<lparr>name = ''out.jpg'', bytes = []\<rparr>])
      else if r = 2 then
        ex_handler ''any'' True (Some [ex_jpeg]) (Inr ())
          (\<lambda>files. Inr (map (\<lambda>f. f\<lparr>bytes := 255 # bytes f\<rparr>) files))
      else if r = 3 then
        ex_handler ''broken'' False None (Inl ''init failed'') (\<lambda>files. Inr files)
      else if r = 5 then
        (ex_handler ''detach'' True (Some [ex_png, ex_jpeg]) (Inr ()) (\<lambda>files. Inl ''worker failed''))
          \<lparr>doConvert := (\<lambda>w st files inF outF.
             (Inl ''worker failed'',
              st[files := map (\<lambda>f. f\<lparr>bytes := []\<rparr>) (readFiles st files)], w))\<rparr>
      else if r = 6 then
        ex_handler ''sleepy'' False (Some [ex_png, ex_jpeg]) (Inr ()) (\<lambda>files. Inr files)
      else if r = 7 then
        ex_handler ''mute'' True None (Inr ()) (\<lambda>files. Inr files)
      else ex_handler ''thrower'' True (Some [ex_png, ex_jpeg]) (Inr ())
          (\<lambda>files. Inl ''cannot convert''))"

definition ex_cache :: "string \<Rightarrow> FileFormat list option" where
  "ex_cache = [''canvas'' \<mapsto> [ex_png], ''blank'' \<mapsto> [ex_png, ex_jpeg], ''any'' \<mapsto> [ex_jpeg],
               ''thrower'' \<mapsto> [ex_png, ex_jpeg], ''detach'' \<mapsto> [ex_png, ex_jpeg],
               ''sleepy'' \<mapsto> [ex_png, ex_jpeg]]"

definition ex_s :: "unit state" where
  "ex_s = \<lparr>world = (), heap = [[\<lparr>name = ''a.png'', bytes = [137, 80]\<rparr>]],
           supportedFormatCache = ex_cache, allOptions = [], simpleMode = True, trace = []\<rparr>"

definition ex_node :: "href \<Rightarrow> FileFormat \<Rightarrow> ConvertPathNode" where
  "ex_node r f = \<lparr>handler = r, fmt = f\<rparr>"

text \<open>
  A second JPEG descriptor with metadata of its own; a state in which only handler 0 is
  cached; a \<^verbatim>\<open>LazyHandler\<close> whose import fails; a batch of three files, with Cancel
  clicked during the second; and a search that yields the one-hop path.
\<close>

definition ex_jpeg_exact :: FileFormat where
  "ex_jpeg_exact = ex_jpeg\<lparr>fmt_name := ''JPEG (blank)'', internal := ''mjpeg''\<rparr>"

definition ex_uncached :: "unit state" where
  "ex_uncached = ex_s\<lparr>supportedFormatCache := [''canvas'' \<mapsto> [ex_png]]\<rparr>"

definition ex_inner :: "unit FormatHandler" where
  "ex_inner = ex_handler ''FFmpeg'' True (Some [ex_png]) (Inr ()) (\<lambda>files. Inr files)"

definition ex_lazy_H :: "href \<Rightarrow> unit LazyState FormatHandler" where
  "ex_lazy_H r = LazyHandler ''FFmpeg'' (Inl ''import failed'') ex_inner"

definition ex_lazy_s :: "unit LazyState state" where
  "ex_lazy_s = \<lparr>world = newLazyState, heap = [], supportedFormatCache = Map.empty,
                allOptions = [], simpleMode = True, trace = []\<rparr>"

definition ex_batch :: "(BatchFile \<times> bool) list" where
  "ex_batch =
     [(\<lparr>srcFile = \<lparr>name = ''a.png'', bytes = [1]\<rparr>, outputFormatIndex = None\<rparr>, False),
      (\<lparr>srcFile = \<lparr>name = ''b.png'', bytes = [2]\<rparr>, outputFormatIndex = None\<rparr>, True),
      (\<lparr>srcFile = \<lparr>name = ''c.png'', bytes = [3]\<rparr>, outputFormatIndex = None\<rparr>, False)]"

definition ex_searchPath ::
  "ConvertPathNode \<Rightarrow> ConvertPathNode \<Rightarrow> bool \<Rightarrow> ConvertPathNode list list" where
  "ex_searchPath frm to simple = [[frm, to]]"


text \<open>
  A handler table over a world that is one ready flag. Its handler is named
  \<^verbatim>\<open>imagesToPdf\<close> and behaves as the class of \<^verbatim>\<open>imagesToPdf.ts\<close> does: it declares
  its formats from the start, is not ready until \<^verbatim>\<open>init\<close> has run, and \<^verbatim>\<open>init\<close> only
  sets the flag. \<^verbatim>\<open>doConvert\<close> returns one file; with \<open>resets\<close> it also clears the
  flag. In the example state nothing is cached and the handler is not ready; the batch
  holds two PNG images.
\<close>

definition ex_pdf :: FileFormat where
  "ex_pdf = \<lparr>fmt_name = ''Portable Document Format'', format = ''pdf'', extension = ''pdf'',
     mime = ''application/pdf'', fmt_from = False, fmt_to = True, internal = ''pdf'',
     lossless = True\<rparr>"

definition ex_flag_H :: "bool \<Rightarrow> href \<Rightarrow> bool FormatHandler" where
  "ex_flag_H resets r =
     \<lparr>handler_name = ''imagesToPdf'', ready = (\<lambda>w. w),
      supportedFormats = (\<lambda>w. Some [ex_png, ex_pdf]),
      init = (\<lambda>w. (Inr (), True)),
      doConvert = (\<lambda>w st files inF outF.
        (Inr (length st), st @ [[\<lparr>name = ''merged.pdf'', bytes = [37, 80]\<rparr>]], w \<and> \<not> resets))\<rparr>"

definition ex_flag_s :: "bool state" where
  "ex_flag_s = \<lparr>world = False, heap = [], supportedFormatCache = Map.empty,
                allOptions = [], simpleMode = True, trace = []\<rparr>"

definition ex_images :: "(BatchFile \<times> string) list" where
  "ex_images =
     [(\<lparr>srcFile = \<lparr>name = ''a.png'', bytes = [1]\<rparr>, outputFormatIndex = None\<rparr>, ''image/png''),
      (\<lparr>srcFile = \<lparr>name = ''b.png'', bytes = [2]\<rparr>, outputFormatIndex = None\<rparr>, ''image/png'')]"

section \<open>Properties of the path executor and the driving loop\<close>

lemmas ex_defs = ex_png_def ex_jpeg_def ex_handler_def ex_H_def ex_cache_def ex_s_def
  ex_node_def readFiles_def

lemma attempts_append: "attempts (xs @ ys) = attempts xs @ attempts ys"
  by (induction xs rule: attempts.induct) simp_all

lemma initCalls_append: "initCalls (xs @ ys) = initCalls xs @ initCalls ys"
  by (induction xs rule: initCalls.induct) simp_all

lemma prepareHandler_attempts:
  "attempts (trace (snd (prepareHandler H s r))) = attempts (trace s)"
  by (simp add: prepareHandler_def Let_def attempts_append split: prod.splits sum.splits option.splits)

lemma runConvert_attempts:
  "attempts (trace (snd (runConvert H s supported files prev nxt))) = attempts (trace s)"
  by (simp add: runConvert_def Let_def attempts_append split: prod.splits sum.splits option.splits)

lemma convertHop_attempts:
  "attempts (trace (snd (convertHop H s files prev nxt))) = attempts (trace s)"
proof (cases "prepareHandler H s (handler nxt)")
  case (Pair a s1)
  then have "attempts (trace s1) = attempts (trace s)"
    using prepareHandler_attempts [of H s "handler nxt"] by simp
  with Pair show ?thesis
    by (cases a) (simp_all add: convertHop_def runConvert_attempts)
qed

lemma convertHops_attempts:
  "attempts (trace (snd (convertHops H s files path))) = attempts (trace s)"
proof (induction H s files path rule: convertHops.induct)
  case (1 H s files prev nxt rest)
  show ?case
  proof (cases "convertHop H s files prev nxt")
    case (Pair a s1)
    then have s1: "attempts (trace s1) = attempts (trace s)"
      using convertHop_attempts [of H s files prev nxt] by simp
    show ?thesis
    proof (cases a)
      case None
      with Pair s1 show ?thesis by simp
    next
      case (Some out)
      with Pair s1 "1.IH" show ?thesis by auto
    qed
  qed
qed simp_all

lemma attemptConvertPath_attempts:
  "attempts (trace (snd (attemptConvertPath H s files path))) = attempts (trace s) @ [path]"
  using convertHops_attempts [of H "s\<lparr>trace := trace s @ [Attempt path]\<rparr>" files path]
  by (auto simp: attemptConvertPath_def attempts_append split: prod.splits option.splits)

lemma attemptConvertPath_path:
  "attemptConvertPath H s files path = (Some r, s1) \<Longrightarrow> snd r = path"
  by (auto simp: attemptConvertPath_def split: prod.splits option.splits)

lemma tryPaths_None:
  "tryPaths H s files to paths = (None, s1) \<Longrightarrow>
   attempts (trace s1) = attempts (trace s) @ map (useExactOutput to) paths"
proof (induction paths arbitrary: s)
  case Nil
  then show ?case by simp
next
  case (Cons p ps)
  obtain a s2 where a: "attemptConvertPath H s files (useExactOutput to p) = (a, s2)"
    by (cases "attemptConvertPath H s files (useExactOutput to p)")
  with Cons.prems have "a = None" and rest: "tryPaths H s2 files to ps = (None, s1)"
    by (auto split: option.splits)
  have "attempts (trace s2) = attempts (trace s) @ [useExactOutput to p]"
    using attemptConvertPath_attempts [of H s files "useExactOutput to p"] a by simp
  with Cons.IH [OF rest] show ?case by simp
qed

lemma tryPaths_Some:
  "tryPaths H s files to paths = (Some r, s2) \<Longrightarrow>
   \<exists>pre p post s1. paths = pre @ p # post
     \<and> tryPaths H s files to pre = (None, s1)
     \<and> attemptConvertPath H s1 files (useExactOutput to p) = (Some r, s2)"
proof (induction paths arbitrary: s)
  case Nil
  then show ?case by simp
next
  case (Cons q qs)
  obtain a s' where a: "attemptConvertPath H s files (useExactOutput to q) = (a, s')"
    by (cases "attemptConvertPath H s files (useExactOutput to q)")
  show ?case
  proof (cases a)
    case None
    with a Cons.prems have "tryPaths H s' files to qs = (Some r, s2)" by simp
    from Cons.IH [OF this] obtain pre p post s1 where
      "qs = pre @ p # post" "tryPaths H s' files to pre = (None, s1)"
      "attemptConvertPath H s1 files (useExactOutput to p) = (Some r, s2)" by blast
    with a None have "q # qs = (q # pre) @ p # post \<and> tryPaths H s files to (q # pre) = (None, s1)
      \<and> attemptConvertPath H s1 files (useExactOutput to p) = (Some r, s2)" by simp
    then show ?thesis by blast
  next
    case (Some r')
    with a Cons.prems have "q # qs = [] @ q # qs \<and> tryPaths H s files to [] = (None, s)
      \<and> attemptConvertPath H s files (useExactOutput to q) = (Some r, s2)" by simp
    then show ?thesis by blast
  qed
qed

lemma convertHops_append:
  "convertHops H s files (front @ [prev]) = (Some files1, s1) \<Longrightarrow>
   convertHops H s files (front @ prev # rest) = convertHops H s1 files1 (prev # rest)"
proof (induction front arbitrary: s files)
  case Nil
  then show ?case by simp
next
  case (Cons a front)
  show ?case
  proof (cases front)
    case Nil
    with Cons.prems show ?thesis
      by (cases rest) (auto split: prod.splits option.splits)
  next
    case (Cons b front')
    with Cons.prems Cons.IH show ?thesis
      by (auto split: prod.splits option.splits)
  qed
qed

lemma convertHop_fails_at:
  assumes "convertHops H (s\<lparr>trace := trace s @ [Attempt (front @ prev # nxt # rest)]\<rparr>) files
             (front @ [prev]) = (Some files1, s1)"
      and "convertHop H s1 files1 prev nxt = (None, s2)"
  shows "attemptConvertPath H s files (front @ prev # nxt # rest) = (None, s2)"
  using convertHops_append [OF assms(1), of "nxt # rest"] assms(2)
  by (simp add: attemptConvertPath_def)



lemma convertHop_bad_result:
  assumes "prepareHandler H s (handler nxt) = (Some (Some fs), s1)"
      and "doConvert (H (handler nxt)) (world s1) (heap s1) files
             (find (\<lambda>c. mime c = mime (fmt prev) \<and> fmt_from c) fs) (fmt nxt) = (r, st, w)"
      and "case r of Inl e \<Rightarrow> True
           | Inr out \<Rightarrow> list_ex (\<lambda>c. length (bytes c) = 0) (readFiles st out)"
  shows "convertHop H s files prev nxt =
           (None, s1\<lparr>trace := trace s1 @ [ConvertCall (handler nxt)], world := w, heap := st\<rparr>)"
proof -
  have "runConvert H s1 (Some fs) files prev nxt =
          (None, s1\<lparr>trace := trace s1 @ [ConvertCall (handler nxt)], world := w, heap := st\<rparr>)"
    using assms(2) assms(3) by (auto simp: runConvert_def Let_def split: sum.splits)
  with assms(1) show ?thesis by (simp add: convertHop_def)
qed


lemma convertHops_snoc:
  assumes "convertHops H s files (front @ [prev]) = (Some files1, s1)"
  shows "convertHops H s files (front @ [prev, nxt]) = convertHop H s1 files1 prev nxt"
  using convertHops_append [OF assms, of "[nxt]"]
  by (cases "convertHop H s1 files1 prev nxt") (auto split: option.splits)

lemma tryPaths_Some_member:
  assumes "tryPaths H s files to paths = (Some r, s2)"
  shows "\<exists>q s1. q \<in> set paths \<and> attemptConvertPath H s1 files (useExactOutput to q) = (Some r, s2)"
proof -
  from tryPaths_Some [OF assms] obtain pre p post s1 where
    "paths = pre @ p # post"
    "attemptConvertPath H s1 files (useExactOutput to p) = (Some r, s2)" by blast
  then have "p \<in> set paths \<and> attemptConvertPath H s1 files (useExactOutput to p) = (Some r, s2)"
    by simp
  then show ?thesis by blast
qed

lemma useExactOutput_eq:
  "useExactOutput to p =
     (if p \<noteq> [] \<and> handler (last p) = handler to then butlast p @ [to] else p)"
proof (cases "p = []")
  case True
  then show ?thesis by (simp add: useExactOutput_def)
next
  case False
  then have "p[length p - 1 := to] = butlast p @ [to]"
    by (induction p rule: rev_induct) simp_all
  then show ?thesis by (simp add: useExactOutput_def)
qed

lemma tryPaths_attempts:
  "\<exists>k\<le>length paths.
     attempts (trace (snd (tryPaths H s files to paths))) =
       attempts (trace s) @ map (useExactOutput to) (take k paths)"
proof (cases "tryPaths H s files to paths")
  case (Pair res s')
  show ?thesis
  proof (cases res)
    case None
    with Pair tryPaths_None [of H s files to paths s']
    have "length paths \<le> length paths \<and> attempts (trace (snd (tryPaths H s files to paths))) =
            attempts (trace s) @ map (useExactOutput to) (take (length paths) paths)"
      by simp
    then show ?thesis by blast
  next
    case (Some r)
    with Pair tryPaths_Some [of H s files to paths r s'] obtain pre p post s1 where
      d: "paths = pre @ p # post" and f: "tryPaths H s files to pre = (None, s1)"
      and a: "attemptConvertPath H s1 files (useExactOutput to p) = (Some r, s')" by blast
    have "attempts (trace s') = attempts (trace s1) @ [useExactOutput to p]"
      using attemptConvertPath_attempts [of H s1 files "useExactOutput to p"] a by simp
    with tryPaths_None [OF f] have
      "attempts (trace s') = attempts (trace s) @ map (useExactOutput to) (pre @ [p])" by simp
    with d Pair have "Suc (length pre) \<le> length paths
       \<and> attempts (trace (snd (tryPaths H s files to paths))) =
            attempts (trace s) @ map (useExactOutput to) (take (Suc (length pre)) paths)"
      by simp
    then show ?thesis by blast
  qed
qed

section \<open>Claims about the path executor and the driving loop\<close>

text \<open>
  Claim C1, as stated, at a concrete input. The caller asks for handler 1, which declares
  PNG as input and JPEG as output, so an edge into the JPEG node uses the requested
  handler. The path that \<open>searchPath\<close> yields reaches JPEG through handler 2. It is
  attempted as yielded: its final hop is not replaced by the caller's node.
\<close>

theorem final_hop_substitution_counterexample:
  "handler (last [ex_node 0 ex_png, ex_node 2 ex_jpeg]) \<noteq> handler (ex_node 1 ex_jpeg_exact)
   \<and> supportedFormats (ex_H 1) () = Some [ex_png, ex_jpeg]
   \<and> fmt_from ex_png \<and> fmt_to ex_jpeg
   \<and> attempts (trace (snd (tryConvertByTraversing ex_H
         (\<lambda>frm to simple. [[ex_node 0 ex_png, ex_node 2 ex_jpeg]])
         ex_s 0 (ex_node 0 ex_png) (ex_node 1 ex_jpeg_exact)))) =
       [[ex_node 0 ex_png, ex_node 2 ex_jpeg]]
   \<and> last [ex_node 0 ex_png, ex_node 2 ex_jpeg] \<noteq> ex_node 1 ex_jpeg_exact"
  by (simp add: ex_defs ex_jpeg_exact_def tryConvertByTraversing_def useExactOutput_def
      attemptConvertPath_def convertHop_def prepareHandler_def runConvert_def)

text \<open>
  Claim C1, amended. The paths that \<^verbatim>\<open>tryConvertByTraversing\<close> attempts are the first
  \<open>k\<close> paths that \<open>searchPath\<close> yields, in order, where the final node of a path is
  replaced by the caller's node \<open>to\<close> exactly when that final node's handler is
  \<open>to\<close>'s handler; a path that ends at another handler is attempted unchanged.
\<close>

theorem final_hop_replaced_for_same_handler:
  "\<exists>k\<le>length (searchPath frm to (simpleMode s)).
     attempts (trace (snd (tryConvertByTraversing H searchPath s files frm to))) =
       attempts (trace s) @
       map (\<lambda>p. if p \<noteq> [] \<and> handler (last p) = handler to then butlast p @ [to] else p)
         (take k (searchPath frm to (simpleMode s)))"
proof -
  have "(\<lambda>p. if p \<noteq> [] \<and> handler (last p) = handler to then butlast p @ [to] else p) =
          useExactOutput to"
    by (rule ext) (simp add: useExactOutput_eq)
  then show ?thesis
    using tryPaths_attempts [of "searchPath frm to (simpleMode s)" H
        "s\<lparr>trace := trace s @ [SearchCall frm to (simpleMode s)]\<rparr>" files to]
    by (simp add: tryConvertByTraversing_def attempts_append)
qed

theorem final_hop_replaced_for_same_handler_witness:
  "attempts (trace (snd (tryConvertByTraversing ex_H
       (\<lambda>frm to simple. [[ex_node 0 ex_png, ex_node 2 ex_jpeg], [ex_node 0 ex_png, ex_node 1 ex_jpeg]])
       ex_s 0 (ex_node 0 ex_png) (ex_node 2 ex_jpeg_exact)))) =
     [[ex_node 0 ex_png, ex_node 2 ex_jpeg_exact]]"
  using final_hop_replaced_for_same_handler [where H = ex_H and s = ex_s and files = 0
      and frm = "ex_node 0 ex_png" and to = "ex_node 2 ex_jpeg_exact" and searchPath =
      "\<lambda>frm to simple. [[ex_node 0 ex_png, ex_node 2 ex_jpeg], [ex_node 0 ex_png, ex_node 1 ex_jpeg]]"]
  by (simp add: ex_defs ex_jpeg_exact_def tryConvertByTraversing_def useExactOutput_def
      attemptConvertPath_def convertHop_def prepareHandler_def runConvert_def)

text \<open>
  Claim C2. If the hops before hop \<open>prev \<rightarrow> nxt\<close> succeed, the handler of \<open>nxt\<close>
  has its formats, and its \<^verbatim>\<open>doConvert\<close> either throws or returns a batch in which some
  file has a zero-length payload, then \<^verbatim>\<open>attemptConvertPath\<close> returns \<^verbatim>\<open>null\<close>, in the
  state, world and store, that \<^verbatim>\<open>doConvert\<close> left: an empty output file and a thrown
  conversion error have the same effect.
\<close>

theorem empty_output_is_failure:
  assumes "convertHops H (s\<lparr>trace := trace s @ [Attempt (front @ prev # nxt # rest)]\<rparr>) files
             (front @ [prev]) = (Some files1, s1)"
      and "prepareHandler H s1 (handler nxt) = (Some (Some fs), s2)"
      and "doConvert (H (handler nxt)) (world s2) (heap s2) files1
             (find (\<lambda>c. mime c = mime (fmt prev) \<and> fmt_from c) fs) (fmt nxt) = (r, st, w)"
      and "case r of Inl e \<Rightarrow> True
           | Inr out \<Rightarrow> list_ex (\<lambda>c. length (bytes c) = 0) (readFiles st out)"
  shows "attemptConvertPath H s files (front @ prev # nxt # rest) =
           (None, s2\<lparr>trace := trace s2 @ [ConvertCall (handler nxt)], world := w, heap := st\<rparr>)"
proof -
  have "convertHop H s1 files1 prev nxt =
          (None, s2\<lparr>trace := trace s2 @ [ConvertCall (handler nxt)], world := w, heap := st\<rparr>)"
    using assms(2) assms(3) assms(4) by (rule convertHop_bad_result)
  with assms(1) show ?thesis by (rule convertHop_fails_at)
qed

theorem empty_output_is_failure_witness:
  "attemptConvertPath ex_H ex_s 0 [ex_node 0 ex_png, ex_node 1 ex_jpeg] =
     (None, ex_s\<lparr>trace := [Attempt [ex_node 0 ex_png, ex_node 1 ex_jpeg], ConvertCall 1],
                 heap := [[\<lparr>name = ''a.png'', bytes = [137, 80]\<rparr>],
                          [\<lparr>name = ''out.jpg'', bytes = []\<rparr>]]\<rparr>)"
proof -
  let ?s1 = "ex_s\<lparr>trace := trace ex_s @ [Attempt ([] @ ex_node 0 ex_png # ex_node 1 ex_jpeg # [])]\<rparr>"
  let ?st = "[[\<lparr>name = ''a.png'', bytes = [137, 80]\<rparr>], [\<lparr>name = ''out.jpg'', bytes = []\<rparr>]]"
  have h1: "convertHops ex_H ?s1 0 ([] @ [ex_node 0 ex_png]) = (Some 0, ?s1)"
    by simp
  have h2: "prepareHandler ex_H ?s1 (handler (ex_node 1 ex_jpeg)) =
              (Some (Some [ex_png, ex_jpeg]), ?s1)"
    by (simp add: prepareHandler_def ex_defs)
  have h3: "doConvert (ex_H (handler (ex_node 1 ex_jpeg))) (world ?s1) (heap ?s1) 0
              (find (\<lambda>c. mime c = mime (fmt (ex_node 0 ex_png)) \<and> fmt_from c) [ex_png, ex_jpeg])
              (fmt (ex_node 1 ex_jpeg)) = (Inr 1, ?st, ())"
    by (simp add: ex_defs)
  have h4: "case Inr 1 of Inl (e::string) \<Rightarrow> True
            | Inr out \<Rightarrow> list_ex (\<lambda>c. length (bytes c) = 0) (readFiles ?st out)"
    by (simp add: readFiles_def)
  show ?thesis
    using empty_output_is_failure [where H = ex_H and s = ex_s and front = "[]"
        and prev = "ex_node 0 ex_png" and nxt = "ex_node 1 ex_jpeg" and rest = "[]" and files = 0
        and ?files1.0 = 0 and ?s1.0 = ?s1 and fs = "[ex_png, ex_jpeg]" and ?s2.0 = ?s1
        and r = "Inr 1" and st = ?st and w = "()", OF h1 h2 h3 h4]
    by (simp add: ex_s_def ex_node_def)
qed

lemma readFiles_append: "f < length st \<Longrightarrow> readFiles (st @ new) f = readFiles st f"
  by (simp add: readFiles_def nth_append)










lemma afterAttempts_attempts:
  "attempts (trace (afterAttempts H s files to ps)) =
     attempts (trace s) @ map (useExactOutput to) ps"
proof (induction ps arbitrary: s)
  case Nil
  then show ?case by simp
next
  case (Cons p ps)
  show ?case
    using Cons.IH [of "snd (attemptConvertPath H s files (useExactOutput to p))"]
      attemptConvertPath_attempts [of H s files "useExactOutput to p"]
    by simp
qed

lemma tryPaths_after_failures:
  assumes "\<forall>j<length pre.
             fst (attemptConvertPath H (afterAttempts H s files to (take j pre)) files
                    (useExactOutput to (pre ! j))) = None"
  shows "tryPaths H s files to (pre @ rest) =
           tryPaths H (afterAttempts H s files to pre) files to rest"
  using assms
proof (induction pre arbitrary: s)
  case Nil
  then show ?case by simp
next
  case (Cons p pre)
  let ?s1 = "snd (attemptConvertPath H s files (useExactOutput to p))"
  from Cons.prems have "fst (attemptConvertPath H (afterAttempts H s files to (take 0 (p # pre)))
      files (useExactOutput to ((p # pre) ! 0))) = None"
    by blast
  then have first: "fst (attemptConvertPath H s files (useExactOutput to p)) = None"
    by simp
  have "\<forall>j<length pre.
          fst (attemptConvertPath H (afterAttempts H ?s1 files to (take j pre)) files
                 (useExactOutput to (pre ! j))) = None"
  proof (intro allI impI)
    fix j assume "j < length pre"
    then have "Suc j < length (p # pre)" by simp
    with Cons.prems have "fst (attemptConvertPath H
        (afterAttempts H s files to (take (Suc j) (p # pre))) files
        (useExactOutput to ((p # pre) ! Suc j))) = None"
      by blast
    then show "fst (attemptConvertPath H (afterAttempts H ?s1 files to (take j pre)) files
        (useExactOutput to (pre ! j))) = None"
      by simp
  qed
  from Cons.IH [OF this] first show ?case
    by (cases "attemptConvertPath H s files (useExactOutput to p)") simp
qed

text \<open>
  Claim C4, as stated, at a concrete input. The two candidates are different paths: they
  end at handler 4 with two different descriptors. The caller asks for handler 4, so the
  final node of each is replaced by the caller's node, and handler 4 throws: the same
  path is attempted twice.
\<close>

theorem first_success_counterexample:
  "distinct [[ex_node 0 ex_png, ex_node 4 ex_jpeg], [ex_node 0 ex_png, ex_node 4 ex_jpeg_exact]]
   \<and> attempts (trace (snd (tryConvertByTraversing ex_H
         (\<lambda>frm to simple. [[ex_node 0 ex_png, ex_node 4 ex_jpeg],
                            [ex_node 0 ex_png, ex_node 4 ex_jpeg_exact]])
         ex_s 0 (ex_node 0 ex_png) (ex_node 4 ex_jpeg)))) =
       [[ex_node 0 ex_png, ex_node 4 ex_jpeg], [ex_node 0 ex_png, ex_node 4 ex_jpeg]]"
  by (simp add: ex_defs ex_jpeg_exact_def tryConvertByTraversing_def useExactOutput_def
      attemptConvertPath_def convertHop_def prepareHandler_def runConvert_def)

text \<open>
  Claim C4, amended. Write \<open>paths\<close> for the sequence that \<open>searchPath\<close> yields, and say
  that candidate \<open>j\<close> fails when its attempt, made in the state that the attempts on the
  candidates before it left, returns \<^verbatim>\<open>null\<close>. If the candidates before candidate \<open>k\<close>
  fail and candidate \<open>k\<close> does not, \<^verbatim>\<open>tryConvertByTraversing\<close> returns what the attempt
  on candidate \<open>k\<close> returns, its files with that attempted path, in the state that this
  attempt left; the paths attempted are the first \<open>k + 1\<close> candidates, each once and in
  order, so no candidate after the first success is consumed. If every candidate fails,
  or there is none, it returns \<^verbatim>\<open>null\<close> after attempting every candidate once, in order.
  An attempted path is the candidate with its final node replaced by the caller's when
  the handlers agree, so two candidates that differ only there are attempted as the same
  path.
\<close>

theorem first_success_or_null:
  "(\<forall>k<length (searchPath frm to (simpleMode s)).
      (\<forall>j<k. fst (attemptConvertPath H
                    (afterAttempts H (s\<lparr>trace := trace s @ [SearchCall frm to (simpleMode s)]\<rparr>)
                       files to (take j (searchPath frm to (simpleMode s))))
                    files (useExactOutput to (searchPath frm to (simpleMode s) ! j))) = None)
      \<and> fst (attemptConvertPath H
                (afterAttempts H (s\<lparr>trace := trace s @ [SearchCall frm to (simpleMode s)]\<rparr>)
                   files to (take k (searchPath frm to (simpleMode s))))
                files (useExactOutput to (searchPath frm to (simpleMode s) ! k))) \<noteq> None
      \<longrightarrow>
        tryConvertByTraversing H searchPath s files frm to =
          attemptConvertPath H
            (afterAttempts H (s\<lparr>trace := trace s @ [SearchCall frm to (simpleMode s)]\<rparr>)
               files to (take k (searchPath frm to (simpleMode s))))
            files (useExactOutput to (searchPath frm to (simpleMode s) ! k))
        \<and> (\<exists>out. fst (tryConvertByTraversing H searchPath s files frm to) =
              Some (out, useExactOutput to (searchPath frm to (simpleMode s) ! k)))
        \<and> attempts (trace (snd (tryConvertByTraversing H searchPath s files frm to))) =
            attempts (trace s) @
            map (useExactOutput to) (take (Suc k) (searchPath frm to (simpleMode s))))
   \<and> ((\<forall>j<length (searchPath frm to (simpleMode s)).
          fst (attemptConvertPath H
                 (afterAttempts H (s\<lparr>trace := trace s @ [SearchCall frm to (simpleMode s)]\<rparr>)
                    files to (take j (searchPath frm to (simpleMode s))))
                 files (useExactOutput to (searchPath frm to (simpleMode s) ! j))) = None)
      \<longrightarrow>
        tryConvertByTraversing H searchPath s files frm to =
          (None, afterAttempts H (s\<lparr>trace := trace s @ [SearchCall frm to (simpleMode s)]\<rparr>)
                   files to (searchPath frm to (simpleMode s)))
        \<and> attempts (trace (snd (tryConvertByTraversing H searchPath s files frm to))) =
            attempts (trace s) @ map (useExactOutput to) (searchPath frm to (simpleMode s)))"
proof -
  let ?paths = "searchPath frm to (simpleMode s)"
  let ?s0 = "s\<lparr>trace := trace s @ [SearchCall frm to (simpleMode s)]\<rparr>"
  let ?att = "\<lambda>j. attemptConvertPath H (afterAttempts H ?s0 files to (take j ?paths)) files
                     (useExactOutput to (?paths ! j))"
  have s0: "attempts (trace ?s0) = attempts (trace s)"
    by (simp add: attempts_append)
  have A: "tryConvertByTraversing H searchPath s files frm to = ?att k
        \<and> (\<exists>out. fst (tryConvertByTraversing H searchPath s files frm to) =
              Some (out, useExactOutput to (?paths ! k)))
        \<and> attempts (trace (snd (tryConvertByTraversing H searchPath s files frm to))) =
            attempts (trace s) @ map (useExactOutput to) (take (Suc k) ?paths)"
    if k: "k < length ?paths" and before: "\<forall>j<k. fst (?att j) = None"
      and hit: "fst (?att k) \<noteq> None" for k
  proof -
    have split: "?paths = take k ?paths @ ?paths ! k # drop (Suc k) ?paths"
      using k by (simp add: id_take_nth_drop)
    have "\<forall>j<length (take k ?paths).
        fst (attemptConvertPath H (afterAttempts H ?s0 files to (take j (take k ?paths))) files
               (useExactOutput to (take k ?paths ! j))) = None"
    proof (intro allI impI)
      fix j assume "j < length (take k ?paths)"
      then have j: "j < k" by simp
      with before have "fst (?att j) = None" by blast
      with j show "fst (attemptConvertPath H
          (afterAttempts H ?s0 files to (take j (take k ?paths))) files
          (useExactOutput to (take k ?paths ! j))) = None"
        by (simp add: min_def)
    qed
    then have "tryPaths H ?s0 files to (take k ?paths @ ?paths ! k # drop (Suc k) ?paths) =
        tryPaths H (afterAttempts H ?s0 files to (take k ?paths)) files to
          (?paths ! k # drop (Suc k) ?paths)"
      by (rule tryPaths_after_failures)
    with split have t: "tryPaths H ?s0 files to ?paths =
        tryPaths H (afterAttempts H ?s0 files to (take k ?paths)) files to
          (?paths ! k # drop (Suc k) ?paths)"
      by simp
    obtain r s' where a: "?att k = (Some r, s')"
      using hit by (cases "?att k") auto
    with t have res: "tryConvertByTraversing H searchPath s files frm to = ?att k"
      by (simp add: tryConvertByTraversing_def)
    from a have "snd r = useExactOutput to (?paths ! k)"
      by (rule attemptConvertPath_path)
    with a res have out: "\<exists>out. fst (tryConvertByTraversing H searchPath s files frm to) =
        Some (out, useExactOutput to (?paths ! k))"
      by (cases r) simp
    have "attempts (trace (snd (?att k))) =
        attempts (trace (afterAttempts H ?s0 files to (take k ?paths))) @
        [useExactOutput to (?paths ! k)]"
      by (rule attemptConvertPath_attempts)
    with s0 k have "attempts (trace (snd (?att k))) =
        attempts (trace s) @ map (useExactOutput to) (take (Suc k) ?paths)"
      by (simp add: afterAttempts_attempts take_Suc_conv_app_nth)
    with res out show ?thesis by simp
  qed
  have B: "tryConvertByTraversing H searchPath s files frm to =
          (None, afterAttempts H ?s0 files to ?paths)
        \<and> attempts (trace (snd (tryConvertByTraversing H searchPath s files frm to))) =
            attempts (trace s) @ map (useExactOutput to) ?paths"
    if all: "\<forall>j<length ?paths. fst (?att j) = None"
  proof -
    from all have "tryPaths H ?s0 files to (?paths @ []) =
        tryPaths H (afterAttempts H ?s0 files to ?paths) files to []"
      by (rule tryPaths_after_failures)
    then have "tryConvertByTraversing H searchPath s files frm to =
        (None, afterAttempts H ?s0 files to ?paths)"
      by (simp add: tryConvertByTraversing_def)
    with s0 show ?thesis by (simp add: afterAttempts_attempts)
  qed
  from A B show ?thesis by blast
qed

theorem first_success_or_null_witness:
  "(\<exists>out. fst (tryConvertByTraversing ex_H
        (\<lambda>frm to simple. [[ex_node 0 ex_png, ex_node 4 ex_jpeg],
                           [ex_node 0 ex_png, ex_node 2 ex_jpeg],
                           [ex_node 0 ex_png, ex_node 1 ex_jpeg]])
        ex_s 0 (ex_node 0 ex_png) (ex_node 2 ex_jpeg)) =
      Some (out, [ex_node 0 ex_png, ex_node 2 ex_jpeg]))
   \<and> attempts (trace (snd (tryConvertByTraversing ex_H
        (\<lambda>frm to simple. [[ex_node 0 ex_png, ex_node 4 ex_jpeg],
                           [ex_node 0 ex_png, ex_node 2 ex_jpeg],
                           [ex_node 0 ex_png, ex_node 1 ex_jpeg]])
        ex_s 0 (ex_node 0 ex_png) (ex_node 2 ex_jpeg)))) =
      [[ex_node 0 ex_png, ex_node 4 ex_jpeg], [ex_node 0 ex_png, ex_node 2 ex_jpeg]]
   \<and> fst (tryConvertByTraversing ex_H
        (\<lambda>frm to simple. [[ex_node 0 ex_png, ex_node 4 ex_jpeg],
                           [ex_node 0 ex_png, ex_node 1 ex_jpeg]])
        ex_s 0 (ex_node 0 ex_png) (ex_node 1 ex_jpeg)) = None
   \<and> attempts (trace (snd (tryConvertByTraversing ex_H
        (\<lambda>frm to simple. [[ex_node 0 ex_png, ex_node 4 ex_jpeg],
                           [ex_node 0 ex_png, ex_node 1 ex_jpeg]])
        ex_s 0 (ex_node 0 ex_png) (ex_node 1 ex_jpeg)))) =
      [[ex_node 0 ex_png, ex_node 4 ex_jpeg], [ex_node 0 ex_png, ex_node 1 ex_jpeg]]"
proof -
  let ?frm = "ex_node 0 ex_png"
  let ?a = "[ex_node 0 ex_png, ex_node 4 ex_jpeg]"
  let ?b = "[ex_node 0 ex_png, ex_node 2 ex_jpeg]"
  let ?c = "[ex_node 0 ex_png, ex_node 1 ex_jpeg]"
  let ?SP = "\<lambda>frm to simple :: bool. [?a, ?b, ?c]"
  let ?SQ = "\<lambda>frm to simple :: bool. [?a, ?c]"
  let ?s0 = "\<lambda>to. ex_s\<lparr>trace := trace ex_s @ [SearchCall ?frm to (simpleMode ex_s)]\<rparr>"
  note evals = ex_defs useExactOutput_def attemptConvertPath_def convertHop_def
    prepareHandler_def runConvert_def
  note T = first_success_or_null [where H = ex_H and searchPath = ?SP and s = ex_s
      and files = 0 and frm = ?frm and to = "ex_node 2 ex_jpeg"]
  note U = first_success_or_null [where H = ex_H and searchPath = ?SQ and s = ex_s
      and files = 0 and frm = ?frm and to = "ex_node 1 ex_jpeg"]
  have k: "(1::nat) < length (?SP ?frm (ex_node 2 ex_jpeg) (simpleMode ex_s))"
    by simp
  have before: "\<forall>j<1::nat. fst (attemptConvertPath ex_H
      (afterAttempts ex_H (?s0 (ex_node 2 ex_jpeg)) 0 (ex_node 2 ex_jpeg)
         (take j (?SP ?frm (ex_node 2 ex_jpeg) (simpleMode ex_s))))
      0 (useExactOutput (ex_node 2 ex_jpeg)
           (?SP ?frm (ex_node 2 ex_jpeg) (simpleMode ex_s) ! j))) = None"
    by (simp add: evals)
  have hit: "fst (attemptConvertPath ex_H
      (afterAttempts ex_H (?s0 (ex_node 2 ex_jpeg)) 0 (ex_node 2 ex_jpeg)
         (take 1 (?SP ?frm (ex_node 2 ex_jpeg) (simpleMode ex_s))))
      0 (useExactOutput (ex_node 2 ex_jpeg)
           (?SP ?frm (ex_node 2 ex_jpeg) (simpleMode ex_s) ! 1))) \<noteq> None"
    by (simp add: evals)
  from T k before hit
  have "(\<exists>out. fst (tryConvertByTraversing ex_H ?SP ex_s 0 ?frm (ex_node 2 ex_jpeg)) =
          Some (out, useExactOutput (ex_node 2 ex_jpeg)
                  (?SP ?frm (ex_node 2 ex_jpeg) (simpleMode ex_s) ! 1)))
      \<and> attempts (trace (snd (tryConvertByTraversing ex_H ?SP ex_s 0 ?frm
            (ex_node 2 ex_jpeg)))) =
          attempts (trace ex_s) @ map (useExactOutput (ex_node 2 ex_jpeg))
            (take (Suc 1) (?SP ?frm (ex_node 2 ex_jpeg) (simpleMode ex_s)))"
    by blast
  then have first: "(\<exists>out. fst (tryConvertByTraversing ex_H ?SP ex_s 0 ?frm
        (ex_node 2 ex_jpeg)) = Some (out, ?b))
      \<and> attempts (trace (snd (tryConvertByTraversing ex_H ?SP ex_s 0 ?frm
            (ex_node 2 ex_jpeg)))) = [?a, ?b]"
    by (simp add: useExactOutput_def ex_node_def ex_s_def)
  have all: "\<forall>j<length (?SQ ?frm (ex_node 1 ex_jpeg) (simpleMode ex_s)).
      fst (attemptConvertPath ex_H
        (afterAttempts ex_H (?s0 (ex_node 1 ex_jpeg)) 0 (ex_node 1 ex_jpeg)
           (take j (?SQ ?frm (ex_node 1 ex_jpeg) (simpleMode ex_s))))
        0 (useExactOutput (ex_node 1 ex_jpeg)
             (?SQ ?frm (ex_node 1 ex_jpeg) (simpleMode ex_s) ! j))) = None"
    by (simp add: evals less_Suc_eq)
  from U all
  have n1: "tryConvertByTraversing ex_H ?SQ ex_s 0 ?frm (ex_node 1 ex_jpeg) =
        (None, afterAttempts ex_H (?s0 (ex_node 1 ex_jpeg)) 0 (ex_node 1 ex_jpeg)
                 (?SQ ?frm (ex_node 1 ex_jpeg) (simpleMode ex_s)))"
    and n2: "attempts (trace (snd (tryConvertByTraversing ex_H ?SQ ex_s 0 ?frm
            (ex_node 1 ex_jpeg)))) =
          attempts (trace ex_s) @ map (useExactOutput (ex_node 1 ex_jpeg))
            (?SQ ?frm (ex_node 1 ex_jpeg) (simpleMode ex_s))"
    by blast+
  from n1 have n3: "fst (tryConvertByTraversing ex_H ?SQ ex_s 0 ?frm (ex_node 1 ex_jpeg)) = None"
    by (simp only: fst_conv)
  from n2 have n4: "attempts (trace (snd (tryConvertByTraversing ex_H ?SQ ex_s 0 ?frm
            (ex_node 1 ex_jpeg)))) = [?a, ?c]"
    by (simp add: useExactOutput_def ex_node_def ex_s_def)
  from n3 n4 have none: "fst (tryConvertByTraversing ex_H ?SQ ex_s 0 ?frm (ex_node 1 ex_jpeg)) = None
      \<and> attempts (trace (snd (tryConvertByTraversing ex_H ?SQ ex_s 0 ?frm
            (ex_node 1 ex_jpeg)))) = [?a, ?c]"
    by (rule conjI)
  from first none show ?thesis by simp
qed

lemma prepareHandler_trace:
  "\<exists>evs. trace (snd (prepareHandler H s r)) = trace s @ evs"
  by (cases "init (H r) (world s)")
     (auto simp: prepareHandler_def Let_def split: sum.splits option.splits)

lemma runConvert_trace:
  "\<exists>evs. trace (snd (runConvert H s supported files prev nxt)) = trace s @ evs"
  by (cases "doConvert (H (handler nxt)) (world s) (heap s) files
               (find (\<lambda>c. mime c = mime (fmt prev) \<and> fmt_from c) (the supported)) (fmt nxt)")
     (auto simp: runConvert_def Let_def split: sum.splits option.splits)

lemma convertHop_trace:
  "\<exists>evs. trace (snd (convertHop H s files prev nxt)) = trace s @ evs"
proof (cases "prepareHandler H s (handler nxt)")
  case (Pair a s1)
  from prepareHandler_trace [of H s "handler nxt"] Pair
  obtain evs where p: "trace s1 = trace s @ evs" by auto
  show ?thesis
  proof (cases a)
    case None
    with Pair p show ?thesis by (simp add: convertHop_def)
  next
    case (Some supported)
    from runConvert_trace [of H s1 supported files prev nxt]
    obtain evs' where "trace (snd (runConvert H s1 supported files prev nxt)) = trace s1 @ evs'"
      by blast
    with Pair Some p show ?thesis by (simp add: convertHop_def)
  qed
qed

lemma convertHops_trace:
  "\<exists>evs. trace (snd (convertHops H s files path)) = trace s @ evs"
proof (induction H s files path rule: convertHops.induct)
  case (1 H s files prev nxt rest)
  obtain a s1 where p: "convertHop H s files prev nxt = (a, s1)"
    by (cases "convertHop H s files prev nxt")
  from convertHop_trace [of H s files prev nxt] p
  obtain evs where e: "trace s1 = trace s @ evs" by auto
  show ?case
  proof (cases a)
    case None
    with p e show ?thesis by simp
  next
    case (Some out)
    from "1.IH" [OF p [symmetric] Some]
    obtain evs' where "trace (snd (convertHops H s1 out (nxt # rest))) = trace s1 @ evs'"
      by blast
    with p Some e show ?thesis by simp
  qed
qed simp_all

text \<open>
  Claim C6, as stated, at a concrete input. The cached formats of handler 2 hold no
  descriptor with the MIME type of the previous node and the input flag set, and yet the
  attempt succeeds, with the output that handler 2 made of the caller's batch.
\<close>

theorem missing_input_format_counterexample:
  "supportedFormatCache ex_s (handler_name (ex_H 2)) = Some [ex_jpeg]
   \<and> find (\<lambda>c. mime c = mime (fmt (ex_node 0 ex_png)) \<and> fmt_from c) [ex_jpeg] = None
   \<and> fst (attemptConvertPath ex_H ex_s 0 [ex_node 0 ex_png, ex_node 2 ex_jpeg]) =
       Some (1, [ex_node 0 ex_png, ex_node 2 ex_jpeg])
   \<and> readFiles (heap (snd (attemptConvertPath ex_H ex_s 0
         [ex_node 0 ex_png, ex_node 2 ex_jpeg]))) 1 =
       [\<lparr>name = ''a.png'', bytes = [255, 137, 80]\<rparr>]"
  by (simp add: ex_defs attemptConvertPath_def convertHop_def prepareHandler_def runConvert_def)

text \<open>
  Claim C6, amended. Take any hop of a path attempt, from \<open>prev\<close> to \<open>nxt\<close>, with any
  nodes \<open>front\<close> before it and any nodes \<open>rest\<close> after it, that the attempt reaches: the
  hops before it succeeded, and the target handler is prepared. If the cached formats of
  the target handler hold no descriptor whose mime is that of \<open>prev\<close>'s format and whose
  input flag is set, \<^verbatim>\<open>attemptConvertPath\<close> calls the handler's \<^verbatim>\<open>doConvert\<close> all the
  same, with \<^verbatim>\<open>undefined\<close> as the input format. That hop fails, and the attempt returns
  \<^verbatim>\<open>null\<close> there, only if the call throws or returns a file with a zero-length payload;
  otherwise the hop succeeds and the attempt goes on with the hops after it, from the
  files that the call returned, and returns what they give.
\<close>

theorem missing_input_format_passes_undefined:
  assumes "convertHops H (s\<lparr>trace := trace s @ [Attempt (front @ prev # nxt # rest)]\<rparr>) files
             (front @ [prev]) = (Some files1, s1)"
      and "prepareHandler H s1 (handler nxt) = (Some (Some fs), s2)"
      and "find (\<lambda>c. mime c = mime (fmt prev) \<and> fmt_from c) fs = None"
      and "doConvert (H (handler nxt)) (world s2) (heap s2) files1 None (fmt nxt) = (r, st, w)"
  shows "attemptConvertPath H s files (front @ prev # nxt # rest) =
           (case r of
              Inl e \<Rightarrow>
                (None, s2\<lparr>trace := trace s2 @ [ConvertCall (handler nxt)], world := w, heap := st\<rparr>)
            | Inr out \<Rightarrow>
                if list_ex (\<lambda>c. length (bytes c) = 0) (readFiles st out)
                then (None, s2\<lparr>trace := trace s2 @ [ConvertCall (handler nxt)],
                               world := w, heap := st\<rparr>)
                else (case convertHops H
                             (s2\<lparr>trace := trace s2 @ [ConvertCall (handler nxt)],
                                 world := w, heap := st\<rparr>) out (nxt # rest) of
                        (None, s3) \<Rightarrow> (None, s3)
                      | (Some res, s3) \<Rightarrow> (Some (res, front @ prev # nxt # rest), s3)))
         \<and> (\<exists>evs. trace (snd (attemptConvertPath H s files (front @ prev # nxt # rest))) =
                     trace s2 @ ConvertCall (handler nxt) # evs)"
proof -
  let ?s3 = "s2\<lparr>trace := trace s2 @ [ConvertCall (handler nxt)], world := w, heap := st\<rparr>"
  let ?path = "front @ prev # nxt # rest"
  let ?bad = "case r of Inl e \<Rightarrow> True
              | Inr out \<Rightarrow> list_ex (\<lambda>c. length (bytes c) = 0) (readFiles st out)"
  have run: "runConvert H s2 (Some fs) files1 prev nxt =
          (case r of Inl e \<Rightarrow> (None, ?s3)
           | Inr out \<Rightarrow> if list_ex (\<lambda>c. length (bytes c) = 0) (readFiles st out)
                       then (None, ?s3) else (Some out, ?s3))"
    using assms(3) assms(4) by (auto simp: runConvert_def Let_def split: sum.splits)
  with assms(2) have hop: "convertHop H s1 files1 prev nxt =
          (case r of Inl e \<Rightarrow> (None, ?s3)
           | Inr out \<Rightarrow> if list_ex (\<lambda>c. length (bytes c) = 0) (readFiles st out)
                       then (None, ?s3) else (Some out, ?s3))"
    by (simp add: convertHop_def)
  have hops: "convertHops H (s\<lparr>trace := trace s @ [Attempt ?path]\<rparr>) files ?path =
      convertHops H s1 files1 (prev # nxt # rest)"
    using assms(1) by (rule convertHops_append)
  have A: "attemptConvertPath H s files ?path =
           (case r of
              Inl e \<Rightarrow> (None, ?s3)
            | Inr out \<Rightarrow>
                if list_ex (\<lambda>c. length (bytes c) = 0) (readFiles st out)
                then (None, ?s3)
                else (case convertHops H ?s3 out (nxt # rest) of
                        (None, s3) \<Rightarrow> (None, s3)
                      | (Some res, s3) \<Rightarrow> (Some (res, ?path), s3)))"
    using hops hop by (simp add: attemptConvertPath_def split: sum.splits)
  have B: "\<exists>evs. trace (snd (attemptConvertPath H s files ?path)) =
                  trace s2 @ ConvertCall (handler nxt) # evs"
  proof (cases ?bad)
    case True
    with A have "trace (snd (attemptConvertPath H s files ?path)) =
        trace s2 @ ConvertCall (handler nxt) # []"
      by (auto split: sum.splits)
    then show ?thesis by blast
  next
    case False
    then obtain out where r: "r = Inr out"
      and ok: "\<not> list_ex (\<lambda>c. length (bytes c) = 0) (readFiles st out)"
      by (cases r) auto
    from convertHops_trace [of H ?s3 out "nxt # rest"]
    obtain evs where "trace (snd (convertHops H ?s3 out (nxt # rest))) = trace ?s3 @ evs"
      by blast
    with A r ok have "trace (snd (attemptConvertPath H s files ?path)) =
        trace s2 @ ConvertCall (handler nxt) # evs"
      by (cases "convertHops H ?s3 out (nxt # rest)") (auto split: option.splits)
    then show ?thesis by blast
  qed
  from A B show ?thesis by (rule conjI)
qed

theorem missing_input_format_passes_undefined_witness:
  "attemptConvertPath ex_H ex_s 0 [ex_node 0 ex_png, ex_node 2 ex_jpeg, ex_node 4 ex_png] =
     (None,
      ex_s\<lparr>trace := [Attempt [ex_node 0 ex_png, ex_node 2 ex_jpeg, ex_node 4 ex_png],
                     ConvertCall 2, ConvertCall 4],
           heap := [[\<lparr>name = ''a.png'', bytes = [137, 80]\<rparr>],
                    [\<lparr>name = ''a.png'', bytes = [255, 137, 80]\<rparr>]]\<rparr>)
   \<and> attemptConvertPath ex_H ex_s 0 [ex_node 0 ex_png, ex_node 2 ex_jpeg, ex_node 0 ex_png] =
     (Some (2, [ex_node 0 ex_png, ex_node 2 ex_jpeg, ex_node 0 ex_png]),
      ex_s\<lparr>trace := [Attempt [ex_node 0 ex_png, ex_node 2 ex_jpeg, ex_node 0 ex_png],
                     ConvertCall 2, ConvertCall 0],
           heap := [[\<lparr>name = ''a.png'', bytes = [137, 80]\<rparr>],
                    [\<lparr>name = ''a.png'', bytes = [255, 137, 80]\<rparr>],
                    [\<lparr>name = ''a.png'', bytes = [255, 137, 80]\<rparr>]]\<rparr>)"
proof -
  have one: "attemptConvertPath ex_H ex_s 0 ([] @ ex_node 0 ex_png # ex_node 2 ex_jpeg # [last]) =
      (case convertHops ex_H
              (ex_s\<lparr>trace := [Attempt [ex_node 0 ex_png, ex_node 2 ex_jpeg, last], ConvertCall 2],
                    heap := [[\<lparr>name = ''a.png'', bytes = [137, 80]\<rparr>],
                             [\<lparr>name = ''a.png'', bytes = [255, 137, 80]\<rparr>]]\<rparr>)
              1 [ex_node 2 ex_jpeg, last] of
         (None, s3) \<Rightarrow> (None, s3)
       | (Some res, s3) \<Rightarrow> (Some (res, [ex_node 0 ex_png, ex_node 2 ex_jpeg, last]), s3))"
    for last
  proof -
    let ?s1 = "ex_s\<lparr>trace := trace ex_s @
        [Attempt ([] @ ex_node 0 ex_png # ex_node 2 ex_jpeg # [last])]\<rparr>"
    have h1: "convertHops ex_H ?s1 0 ([] @ [ex_node 0 ex_png]) = (Some 0, ?s1)"
      by simp
    have h2: "prepareHandler ex_H ?s1 (handler (ex_node 2 ex_jpeg)) =
        (Some (Some [ex_jpeg]), ?s1)"
      by (simp add: prepareHandler_def ex_defs)
    have h3: "find (\<lambda>c. mime c = mime (fmt (ex_node 0 ex_png)) \<and> fmt_from c) [ex_jpeg] = None"
      by (simp add: ex_defs)
    have h4: "doConvert (ex_H (handler (ex_node 2 ex_jpeg))) (world ?s1) (heap ?s1) 0 None
                (fmt (ex_node 2 ex_jpeg)) =
              (Inr 1, [[\<lparr>name = ''a.png'', bytes = [137, 80]\<rparr>],
                       [\<lparr>name = ''a.png'', bytes = [255, 137, 80]\<rparr>]], ())"
      by (simp add: ex_defs)
    show ?thesis
      using missing_input_format_passes_undefined [OF h1 h2 h3 h4, THEN conjunct1]
      by (simp add: ex_s_def ex_node_def readFiles_def
          cong del: prod.case_cong_weak option.case_cong_weak)
  qed
  show ?thesis
    using one [of "ex_node 4 ex_png"] one [of "ex_node 0 ex_png"]
    by (simp add: ex_defs convertHop_def prepareHandler_def runConvert_def)
qed

section \<open>Claims about the option list\<close>

lemma buildHandler_initCalls:
  "initCalls (trace (buildHandler H s r)) =
     initCalls (trace s) @ (if supportedFormatCache s (handler_name (H r)) = None then [r] else [])"
  by (auto simp: buildHandler_def cacheFormats_def Let_def initCalls_append
      split: prod.splits sum.splits option.splits bool.splits)

lemma buildHandler_cache_other:
  "n \<noteq> handler_name (H r) \<Longrightarrow>
   supportedFormatCache (buildHandler H s r) n = supportedFormatCache s n"
  by (auto simp: buildHandler_def cacheFormats_def Let_def
      split: prod.splits sum.splits option.splits bool.splits)

lemma buildHandler_cache_kept:
  "supportedFormatCache s n = Some fs \<Longrightarrow> supportedFormatCache (buildHandler H s r) n = Some fs"
  by (auto simp: buildHandler_def cacheFormats_def Let_def
      split: prod.splits sum.splits option.splits bool.splits)

lemma buildHandler_allOptions:
  "allOptions (buildHandler H s r) =
     allOptions s @
     (case supportedFormatCache (buildHandler H s r) (handler_name (H r)) of
        None \<Rightarrow> [] | Some fs \<Rightarrow> handlerOptions r fs)"
  by (auto simp: buildHandler_def cacheFormats_def Let_def
      split: prod.splits sum.splits option.splits bool.splits)

lemma buildHandler_init_throws:
  "supportedFormatCache s (handler_name (H r)) = None \<Longrightarrow>
   isl (fst (init (H r) (world s))) \<Longrightarrow>
   supportedFormatCache (buildHandler H s r) = supportedFormatCache s
   \<and> allOptions (buildHandler H s r) = allOptions s"
  by (auto simp: buildHandler_def cacheFormats_def Let_def
      split: prod.splits sum.splits option.splits bool.splits)

lemma buildHandlers_cache_other:
  "n \<notin> (\<lambda>r. handler_name (H r)) ` set rs \<Longrightarrow>
   supportedFormatCache (buildHandlers H s rs) n = supportedFormatCache s n"
  by (induction rs arbitrary: s) (simp_all add: buildHandler_cache_other)

lemma buildHandlers_cache_kept:
  "supportedFormatCache s n = Some fs \<Longrightarrow> supportedFormatCache (buildHandlers H s rs) n = Some fs"
  by (induction rs arbitrary: s) (simp_all add: buildHandler_cache_kept)

lemma buildHandlers_initCalls:
  "distinct (map (\<lambda>r. handler_name (H r)) rs) \<Longrightarrow>
   initCalls (trace (buildHandlers H s rs)) =
     initCalls (trace s) @ filter (\<lambda>r. supportedFormatCache s (handler_name (H r)) = None) rs"
proof (induction rs arbitrary: s)
  case Nil
  then show ?case by simp
next
  case (Cons r rs)
  have "filter (\<lambda>q. supportedFormatCache (buildHandler H s r) (handler_name (H q)) = None) rs =
        filter (\<lambda>q. supportedFormatCache s (handler_name (H q)) = None) rs"
  proof (rule filter_cong [OF refl])
    fix q assume "q \<in> set rs"
    with Cons.prems have "handler_name (H q) \<noteq> handler_name (H r)"
      by (auto simp: image_iff)
    then show "(supportedFormatCache (buildHandler H s r) (handler_name (H q)) = None) =
               (supportedFormatCache s (handler_name (H q)) = None)"
      by (simp add: buildHandler_cache_other)
  qed
  with Cons.prems Cons.IH [of "buildHandler H s r"] show ?case
    by (simp add: buildHandler_initCalls)
qed

lemma buildHandlers_allOptions:
  "distinct (map (\<lambda>r. handler_name (H r)) rs) \<Longrightarrow>
   allOptions (buildHandlers H s rs) =
     allOptions s @
     concat (map (\<lambda>r. case supportedFormatCache (buildHandlers H s rs) (handler_name (H r)) of
                         None \<Rightarrow> [] | Some fs \<Rightarrow> handlerOptions r fs) rs)"
proof (induction rs arbitrary: s)
  case Nil
  then show ?case by simp
next
  case (Cons r rs)
  from Cons.prems have "handler_name (H r) \<notin> (\<lambda>r. handler_name (H r)) ` set rs" by auto
  then have "supportedFormatCache (buildHandlers H (buildHandler H s r) rs) (handler_name (H r)) =
             supportedFormatCache (buildHandler H s r) (handler_name (H r))"
    by (rule buildHandlers_cache_other)
  with Cons.prems Cons.IH [of "buildHandler H s r"] show ?case
    by (simp add: buildHandler_allOptions [of H s r])
qed

lemma buildHandlers_init_throws:
  assumes "distinct (map (\<lambda>r. handler_name (H r)) rs)"
      and "r \<in> set rs"
      and "supportedFormatCache s (handler_name (H r)) = None"
      and "\<forall>w. isl (fst (init (H r) w))"
  shows "supportedFormatCache (buildHandlers H s rs) (handler_name (H r)) = None"
  using assms
proof (induction rs arbitrary: s)
  case Nil
  then show ?case by simp
next
  case (Cons q rs)
  show ?case
  proof (cases "q = r")
    case True
    with Cons.prems have "handler_name (H r) \<notin> (\<lambda>r. handler_name (H r)) ` set rs" by auto
    then have "supportedFormatCache (buildHandlers H (buildHandler H s r) rs) (handler_name (H r)) =
               supportedFormatCache (buildHandler H s r) (handler_name (H r))"
      by (rule buildHandlers_cache_other)
    with True Cons.prems buildHandler_init_throws [of s H r] show ?thesis by simp
  next
    case False
    with Cons.prems have "r \<in> set rs" and "handler_name (H r) \<noteq> handler_name (H q)"
      by (auto simp: image_iff)
    with Cons.prems Cons.IH [of "buildHandler H s q"] show ?thesis
      by (simp add: buildHandler_cache_other)
  qed
qed

lemma buildHandlers_initCalls_uncached:
  "\<exists>xs. initCalls (trace (buildHandlers H s rs)) = initCalls (trace s) @ xs
      \<and> list_all (\<lambda>r. supportedFormatCache s (handler_name (H r)) = None) xs"
proof (induction rs arbitrary: s)
  case Nil
  then show ?case by simp
next
  case (Cons r rs)
  let ?s1 = "buildHandler H s r"
  from Cons.IH [of ?s1] obtain xs where
    xs: "initCalls (trace (buildHandlers H ?s1 rs)) = initCalls (trace ?s1) @ xs"
    and un: "list_all (\<lambda>q. supportedFormatCache ?s1 (handler_name (H q)) = None) xs" by blast
  have "list_all (\<lambda>q. supportedFormatCache s (handler_name (H q)) = None) xs"
    unfolding list_all_iff
  proof
    fix q assume "q \<in> set xs"
    with un have n: "supportedFormatCache ?s1 (handler_name (H q)) = None"
      by (simp add: list_all_iff)
    show "supportedFormatCache s (handler_name (H q)) = None"
    proof (cases "supportedFormatCache s (handler_name (H q))")
      case None
      then show ?thesis .
    next
      case (Some fs)
      then have "supportedFormatCache ?s1 (handler_name (H q)) = Some fs"
        by (rule buildHandler_cache_kept)
      with n show ?thesis by simp
    qed
  qed
  with xs have "initCalls (trace (buildHandlers H s (r # rs))) =
      initCalls (trace s) @
        ((if supportedFormatCache s (handler_name (H r)) = None then [r] else []) @ xs)
    \<and> list_all (\<lambda>q. supportedFormatCache s (handler_name (H q)) = None)
        ((if supportedFormatCache s (handler_name (H r)) = None then [r] else []) @ xs)"
    by (simp add: buildHandler_initCalls)
  then show ?case by blast
qed

lemma buildHandlers_append:
  "buildHandlers H s (xs @ ys) = buildHandlers H (buildHandlers H s xs) ys"
  by (induction xs arbitrary: s) simp_all

lemma buildHandler_init_throws_state:
  "supportedFormatCache s (handler_name (H r)) = None \<Longrightarrow> init (H r) (world s) = (Inl e, w) \<Longrightarrow>
   buildHandler H s r = s\<lparr>world := w, trace := trace s @ [InitCall r False]\<rparr>"
  by (simp add: buildHandler_def cacheFormats_def)

text \<open>
  Claim C5. For every handler list: \<^verbatim>\<open>buildOptionList\<close> calls \<^verbatim>\<open>init\<close> only on handlers
  whose name is not in the cache. When the turn of a handler \<open>r\<close> comes, its name is not
  cached and its \<^verbatim>\<open>init\<close> throws, the build goes on with the handlers after \<open>r\<close> from a
  state in which only the handlers' world and the trace have changed: \<open>r\<close> gets no option
  and no cache entry, and nothing else is lost. When the handlers have pairwise different
  names, as the data model requires, \<^verbatim>\<open>init\<close> is called on exactly the handlers that are
  not cached, in list order; the option list holds, for every handler of the list, the
  formats that the cache has for it at the end; and an uncached handler whose \<^verbatim>\<open>init\<close>
  always throws stays uncached, so that it alone contributes nothing.
\<close>

theorem buildOptionList_skips_failed_init:
  "(\<exists>xs. initCalls (trace (buildOptionList H handlers s)) = initCalls (trace s) @ xs
        \<and> list_all (\<lambda>r. supportedFormatCache s (handler_name (H r)) = None) xs)
   \<and> (handlers = pre @ r # post
        \<and> supportedFormatCache (buildOptionList H pre s) (handler_name (H r)) = None
        \<and> init (H r) (world (buildOptionList H pre s)) = (Inl e, w) \<longrightarrow>
      buildOptionList H handlers s =
        buildHandlers H
          ((buildOptionList H pre s)
             \<lparr>world := w, trace := trace (buildOptionList H pre s) @ [InitCall r False]\<rparr>) post)
   \<and> (distinct (map (\<lambda>r. handler_name (H r)) handlers) \<longrightarrow>
        initCalls (trace (buildOptionList H handlers s)) =
          initCalls (trace s) @
          filter (\<lambda>r. supportedFormatCache s (handler_name (H r)) = None) handlers
        \<and> allOptions (buildOptionList H handlers s) =
          concat (map (\<lambda>r. case supportedFormatCache (buildOptionList H handlers s)
                                   (handler_name (H r)) of
                              None \<Rightarrow> [] | Some fs \<Rightarrow> handlerOptions r fs) handlers)
        \<and> (\<forall>r\<in>set handlers.
              supportedFormatCache s (handler_name (H r)) = None
              \<and> (\<forall>w. isl (fst (init (H r) w)))
              \<longrightarrow> supportedFormatCache (buildOptionList H handlers s) (handler_name (H r)) = None))"
proof -
  let ?s0 = "s\<lparr>allOptions := []\<rparr>"
  have A: "\<exists>xs. initCalls (trace (buildOptionList H handlers s)) = initCalls (trace s) @ xs
        \<and> list_all (\<lambda>r. supportedFormatCache s (handler_name (H r)) = None) xs"
    using buildHandlers_initCalls_uncached [of H ?s0 handlers]
    by (simp add: buildOptionList_def)
  have B: "buildOptionList H handlers s =
        buildHandlers H
          ((buildOptionList H pre s)
             \<lparr>world := w, trace := trace (buildOptionList H pre s) @ [InitCall r False]\<rparr>) post"
    if h: "handlers = pre @ r # post
        \<and> supportedFormatCache (buildOptionList H pre s) (handler_name (H r)) = None
        \<and> init (H r) (world (buildOptionList H pre s)) = (Inl e, w)"
  proof -
    let ?s1 = "buildHandlers H ?s0 pre"
    from h have "buildHandler H ?s1 r = ?s1\<lparr>world := w, trace := trace ?s1 @ [InitCall r False]\<rparr>"
      by (simp add: buildOptionList_def buildHandler_init_throws_state)
    with h show ?thesis
      by (simp add: buildOptionList_def buildHandlers_append)
  qed
  have C: "initCalls (trace (buildOptionList H handlers s)) =
          initCalls (trace s) @
          filter (\<lambda>r. supportedFormatCache s (handler_name (H r)) = None) handlers
        \<and> allOptions (buildOptionList H handlers s) =
          concat (map (\<lambda>r. case supportedFormatCache (buildOptionList H handlers s)
                                   (handler_name (H r)) of
                              None \<Rightarrow> [] | Some fs \<Rightarrow> handlerOptions r fs) handlers)
        \<and> (\<forall>r\<in>set handlers.
              supportedFormatCache s (handler_name (H r)) = None
              \<and> (\<forall>w. isl (fst (init (H r) w)))
              \<longrightarrow> supportedFormatCache (buildOptionList H handlers s) (handler_name (H r)) = None)"
    if d: "distinct (map (\<lambda>r. handler_name (H r)) handlers)"
    using d
      buildHandlers_initCalls [of H handlers ?s0]
      buildHandlers_allOptions [of H handlers ?s0]
      buildHandlers_init_throws [of H handlers _ ?s0]
    by (simp add: buildOptionList_def)
  from A B C show ?thesis by blast
qed

theorem buildOptionList_skips_failed_init_witness:
  "initCalls (trace (buildOptionList ex_H [0, 3, 2] ex_uncached)) = [3, 2]
   \<and> allOptions (buildOptionList ex_H [0, 3, 2] ex_uncached) =
       [ex_node 0 ex_png, ex_node 2 ex_jpeg]
   \<and> supportedFormatCache (buildOptionList ex_H [0, 3, 2] ex_uncached) ''broken'' = None
   \<and> buildOptionList ex_H [0, 3, 2] ex_uncached =
       buildHandlers ex_H
         (ex_uncached\<lparr>allOptions := [ex_node 0 ex_png], trace := [InitCall 3 False]\<rparr>) [2]"
proof -
  have d: "distinct (map (\<lambda>r. handler_name (ex_H r)) [0, 3, 2])"
    by (simp add: ex_defs)
  have m: "(3::nat) \<in> set [0, 3, 2]" by simp
  have f: "supportedFormatCache ex_uncached (handler_name (ex_H 3)) = None
           \<and> (\<forall>w. isl (fst (init (ex_H 3) w)))"
    by (simp add: ex_defs ex_uncached_def)
  have n: "handler_name (ex_H 3) = ''broken''" by (simp add: ex_defs)
  have c: "supportedFormatCache (buildOptionList ex_H [0, 3, 2] ex_uncached) =
             [''canvas'' \<mapsto> [ex_png], ''any'' \<mapsto> [ex_jpeg]]"
    by (simp add: buildOptionList_def buildHandler_def cacheFormats_def ex_uncached_def
        ex_H_def ex_handler_def ex_s_def)
  have p: "buildOptionList ex_H [0] ex_uncached = ex_uncached\<lparr>allOptions := [ex_node 0 ex_png]\<rparr>"
    by (simp add: buildOptionList_def buildHandler_def cacheFormats_def handlerOptions_def
        ex_uncached_def ex_defs)
  have g: "[0, 3, 2] = [0] @ (3::nat) # [2]
        \<and> supportedFormatCache (buildOptionList ex_H [0] ex_uncached) (handler_name (ex_H 3)) = None
        \<and> init (ex_H 3) (world (buildOptionList ex_H [0] ex_uncached)) = (Inl ''init failed'', ())"
    by (simp add: p) (simp add: ex_uncached_def ex_defs)
  note T = buildOptionList_skips_failed_init [where H = ex_H and handlers = "[0, 3, 2]"
      and s = ex_uncached and pre = "[0]" and r = 3 and post = "[2]" and e = "''init failed''"
      and w = "()"]
  from T d have "initCalls (trace (buildOptionList ex_H [0, 3, 2] ex_uncached)) =
      initCalls (trace ex_uncached) @
      filter (\<lambda>r. supportedFormatCache ex_uncached (handler_name (ex_H r)) = None) [0, 3, 2]"
    by blast
  then have i: "initCalls (trace (buildOptionList ex_H [0, 3, 2] ex_uncached)) = [3, 2]"
    by (simp add: ex_uncached_def ex_defs)
  from T d have "allOptions (buildOptionList ex_H [0, 3, 2] ex_uncached) =
      concat (map (\<lambda>r. case supportedFormatCache (buildOptionList ex_H [0, 3, 2] ex_uncached)
                               (handler_name (ex_H r)) of
                          None \<Rightarrow> [] | Some fs \<Rightarrow> handlerOptions r fs) [0, 3, 2])"
    by blast
  then have a: "allOptions (buildOptionList ex_H [0, 3, 2] ex_uncached) =
      [ex_node 0 ex_png, ex_node 2 ex_jpeg]"
    by (simp add: c handlerOptions_def ex_defs)
  from T d m f have "supportedFormatCache (buildOptionList ex_H [0, 3, 2] ex_uncached)
      (handler_name (ex_H 3)) = None"
    by blast
  with n have b: "supportedFormatCache (buildOptionList ex_H [0, 3, 2] ex_uncached) ''broken'' = None"
    by simp
  from T g have "buildOptionList ex_H [0, 3, 2] ex_uncached =
      buildHandlers ex_H
        ((buildOptionList ex_H [0] ex_uncached)
           \<lparr>world := (), trace := trace (buildOptionList ex_H [0] ex_uncached) @ [InitCall 3 False]\<rparr>) [2]"
    by blast
  then have k: "buildOptionList ex_H [0, 3, 2] ex_uncached =
      buildHandlers ex_H
        (ex_uncached\<lparr>allOptions := [ex_node 0 ex_png], trace := [InitCall 3 False]\<rparr>) [2]"
    by (simp add: p) (simp add: ex_uncached_def ex_s_def)
  from i a b k show ?thesis by simp
qed

section \<open>Claims about the initialisation of handlers\<close>

lemma initCalls_member: "InitCall r ok \<in> set evs \<Longrightarrow> r \<in> set (initCalls evs)"
  by (induction evs rule: initCalls.induct) auto

lemma initAfterSuccess_no_init: "r \<notin> set (initCalls evs) \<Longrightarrow> \<not> initAfterSuccess r seen evs"
  by (induction r seen evs rule: initAfterSuccess.induct) auto

lemma initAfterSuccess_append:
  "initAfterSuccess r seen (xs @ ys) =
     (initAfterSuccess r seen xs \<or> initAfterSuccess r (seen \<or> InitCall r True \<in> set xs) ys)"
  by (induction r seen xs rule: initAfterSuccess.induct) auto

lemma initOnceStep_same:
  assumes "trace s' = trace s @ evs" and "initCalls evs = []"
      and "world s' = world s" and "supportedFormatCache s' = supportedFormatCache s"
  shows "initOnceStep H r s s'"
proof -
  from assms(2) have n: "r \<notin> set (initCalls evs)" by simp
  then have "\<not> initAfterSuccess r False evs" by (rule initAfterSuccess_no_init)
  moreover from n have "InitCall r True \<notin> set evs" using initCalls_member by blast
  ultimately show ?thesis
    unfolding initOnceStep_def using assms n by (intro exI [of _ evs]) simp
qed

lemma initOnceStep_convert:
  assumes "trace s' = trace s @ evs" and "initCalls evs = []"
      and "world s' = snd (snd (doConvert (H q) (world s) st f i fo))"
      and "supportedFormatCache s' = supportedFormatCache s"
      and "\<forall>q w st f i fo. ready (H r) w \<longrightarrow> ready (H r) (snd (snd (doConvert (H q) w st f i fo)))"
  shows "initOnceStep H r s s'"
proof -
  from assms(2) have n: "r \<notin> set (initCalls evs)" by simp
  then have "\<not> initAfterSuccess r False evs" by (rule initAfterSuccess_no_init)
  moreover from n have "InitCall r True \<notin> set evs" using initCalls_member by blast
  moreover have "ready (H r) (world s) \<longrightarrow> ready (H r) (world s')"
    using assms(3) assms(5) by simp
  ultimately show ?thesis
    unfolding initOnceStep_def using assms(1) assms(4) n by (intro exI [of _ evs]) simp
qed

lemma initOnceStep_trans:
  assumes "initOnceStep H r s s1" and "initOnceStep H r s1 s2"
  shows "initOnceStep H r s s2"
proof -
  let ?c = "\<lambda>s. supportedFormatCache s (handler_name (H r)) \<noteq> None"
  let ?d = "\<lambda>s. ready (H r) (world s)"
  let ?K = "\<lambda>s. ?c s \<or> handler_name (H r) \<noteq> ''imagesToPdf''"
  from assms(1) obtain xs where xs: "trace s1 = trace s @ xs"
    and c1: "?c s \<longrightarrow> ?c s1"
    and d1: "?c s \<and> ?d s \<longrightarrow> ?d s1 \<and> r \<notin> set (initCalls xs)"
    and k1: "?K s \<longrightarrow> \<not> initAfterSuccess r False xs
               \<and> (InitCall r True \<in> set xs \<longrightarrow> ?c s1 \<and> ?d s1)"
    unfolding initOnceStep_def by blast
  from assms(2) obtain ys where ys: "trace s2 = trace s1 @ ys"
    and c2: "?c s1 \<longrightarrow> ?c s2"
    and d2: "?c s1 \<and> ?d s1 \<longrightarrow> ?d s2 \<and> r \<notin> set (initCalls ys)"
    and k2: "?K s1 \<longrightarrow> \<not> initAfterSuccess r False ys
               \<and> (InitCall r True \<in> set ys \<longrightarrow> ?c s2 \<and> ?d s2)"
    unfolding initOnceStep_def by blast
  have t: "trace s2 = trace s @ (xs @ ys)" using xs ys by simp
  have c: "?c s \<longrightarrow> ?c s2" using c1 c2 by blast
  have d: "?c s \<and> ?d s \<longrightarrow> ?d s2 \<and> r \<notin> set (initCalls (xs @ ys))"
    using c1 d1 d2 by (auto simp: initCalls_append)
  have k: "\<not> initAfterSuccess r False (xs @ ys)
           \<and> (InitCall r True \<in> set (xs @ ys) \<longrightarrow> ?c s2 \<and> ?d s2)" if K: "?K s"
  proof -
    from K c1 have K1: "?K s1" by blast
    have a: "\<not> initAfterSuccess r False xs" using K k1 by blast
    have b: "\<not> initAfterSuccess r (InitCall r True \<in> set xs) ys"
    proof (cases "InitCall r True \<in> set xs")
      case True
      with K k1 have "?c s1 \<and> ?d s1" by blast
      with d2 have "r \<notin> set (initCalls ys)" by blast
      then show ?thesis by (rule initAfterSuccess_no_init)
    next
      case False
      with K1 k2 show ?thesis by simp
    qed
    have e: "?c s2 \<and> ?d s2" if "InitCall r True \<in> set (xs @ ys)"
    proof (cases "InitCall r True \<in> set xs")
      case True
      with K k1 have "?c s1 \<and> ?d s1" by blast
      with c2 d2 show ?thesis by blast
    next
      case False
      with that have "InitCall r True \<in> set ys" by simp
      with K1 k2 show ?thesis by blast
    qed
    from a b e show ?thesis by (simp add: initAfterSuccess_append)
  qed
  show ?thesis
    unfolding initOnceStep_def using t c d k by (intro exI [of _ "xs @ ys"]) blast
qed

lemma initOnceStep_init:
  assumes h1: "\<forall>w u w'. init (H r) w = (Inr u, w') \<longrightarrow>
                 ready (H r) w' \<and> supportedFormats (H r) w' \<noteq> None"
      and h2: "\<forall>q w. ready (H r) w \<longrightarrow> ready (H r) (snd (init (H q) w))"
      and i: "init (H q) (world s) = (res, w)"
      and t: "trace s' = trace s @ [InitCall q (\<not> isl res)]"
      and w: "world s' = w"
      and guard: "supportedFormatCache s (handler_name (H q)) = None \<or> \<not> ready (H q) (world s)"
      and cache: "supportedFormatCache s' = supportedFormatCache s
                  \<or> (\<exists>fs. \<not> isl res \<and> supportedFormats (H q) w = Some fs
                        \<and> supportedFormatCache s' =
                            (supportedFormatCache s)(handler_name (H q) \<mapsto> fs))"
      and memo: "q = r \<and> \<not> isl res
                  \<and> (supportedFormatCache s (handler_name (H r)) \<noteq> None
                      \<or> handler_name (H r) \<noteq> ''imagesToPdf'') \<longrightarrow>
                  supportedFormatCache s' (handler_name (H r)) \<noteq> None"
  shows "initOnceStep H r s s'"
proof -
  let ?c = "\<lambda>s. supportedFormatCache s (handler_name (H r)) \<noteq> None"
  let ?d = "\<lambda>s. ready (H r) (world s)"
  have c: "?c s \<longrightarrow> ?c s'" using cache by auto
  have rd: "?d s \<longrightarrow> ?d s'"
  proof
    assume "?d s"
    with h2 have "ready (H r) (snd (init (H q) (world s)))" by blast
    with i w show "?d s'" by simp
  qed
  have ne: "?c s \<and> ?d s \<longrightarrow> q \<noteq> r" using guard by auto
  have ok: "?c s' \<and> ?d s'"
    if "InitCall r True \<in> set [InitCall q (\<not> isl res)]"
      and "?c s \<or> handler_name (H r) \<noteq> ''imagesToPdf''"
  proof -
    from that(1) have q: "q = r" and r: "\<not> isl res" by auto
    then obtain u where "res = Inr u" by (cases res) auto
    with i q h1 have "ready (H r) w" by blast
    moreover from memo q r that(2) have "?c s'" by blast
    ultimately show ?thesis using w by simp
  qed
  have n: "\<not> initAfterSuccess r False [InitCall q (\<not> isl res)]" by simp
  show ?thesis
    unfolding initOnceStep_def using t c rd ne ok n
    by (intro exI [of _ "[InitCall q (\<not> isl res)]"]) auto
qed

lemma initOnceStep_after:
  assumes "initOnceStep H r s s1" and "trace s2 = trace s1 @ evs" and "initCalls evs = []"
      and "world s2 = world s1" and "supportedFormatCache s2 = supportedFormatCache s1"
  shows "initOnceStep H r s s2"
  using assms(1) initOnceStep_same [OF assms(2-5)] by (rule initOnceStep_trans)

lemma initOnceStep_before:
  assumes "initOnceStep H r s1 s2" and "trace s1 = trace s @ evs" and "initCalls evs = []"
      and "world s1 = world s" and "supportedFormatCache s1 = supportedFormatCache s"
  shows "initOnceStep H r s s2"
  using initOnceStep_same [OF assms(2-5)] assms(1) by (rule initOnceStep_trans)

lemma initCalls_downloads:
  "initCalls (map (\<lambda>f. Download (g f) (h f) (k f)) fs) = []"
  by (induction fs) simp_all

lemma cacheFormats_step:
  assumes h1: "\<forall>w u w'. init (H r) w = (Inr u, w') \<longrightarrow>
                 ready (H r) w' \<and> supportedFormats (H r) w' \<noteq> None"
      and h2: "\<forall>q w. ready (H r) w \<longrightarrow> ready (H r) (snd (init (H q) w))"
  shows "initOnceStep H r s (snd (cacheFormats H s q))"
proof (cases "supportedFormatCache s (handler_name (H q)) = None")
  case False
  then have "cacheFormats H s q = (True, s)" by (auto simp: cacheFormats_def Let_def)
  then show ?thesis by (simp add: initOnceStep_same [where evs = "[]"])
next
  case True
  obtain res w where i: "init (H q) (world s) = (res, w)"
    by (cases "init (H q) (world s)")
  show ?thesis
  proof (rule initOnceStep_init [OF h1 h2 i])
    show "trace (snd (cacheFormats H s q)) = trace s @ [InitCall q (\<not> isl res)]"
      using True i by (auto simp: cacheFormats_def Let_def split: sum.splits option.splits)
    show "world (snd (cacheFormats H s q)) = w"
      using True i by (auto simp: cacheFormats_def Let_def split: sum.splits option.splits)
    show "supportedFormatCache s (handler_name (H q)) = None \<or> \<not> ready (H q) (world s)"
      using True by simp
    show "supportedFormatCache (snd (cacheFormats H s q)) = supportedFormatCache s
          \<or> (\<exists>fs. \<not> isl res \<and> supportedFormats (H q) w = Some fs
                \<and> supportedFormatCache (snd (cacheFormats H s q)) =
                    (supportedFormatCache s)(handler_name (H q) \<mapsto> fs))"
      using True i by (auto simp: cacheFormats_def Let_def split: sum.splits option.splits)
    show "q = r \<and> \<not> isl res
            \<and> (supportedFormatCache s (handler_name (H r)) \<noteq> None
                \<or> handler_name (H r) \<noteq> ''imagesToPdf'') \<longrightarrow>
          supportedFormatCache (snd (cacheFormats H s q)) (handler_name (H r)) \<noteq> None"
    proof
      assume a: "q = r \<and> \<not> isl res
            \<and> (supportedFormatCache s (handler_name (H r)) \<noteq> None
                \<or> handler_name (H r) \<noteq> ''imagesToPdf'')"
      then obtain u where "res = Inr u" by (cases res) auto
      with a i h1 obtain fs where "supportedFormats (H q) w = Some fs" by blast
      with True i \<open>res = Inr u\<close> a
      show "supportedFormatCache (snd (cacheFormats H s q)) (handler_name (H r)) \<noteq> None"
        by (simp add: cacheFormats_def Let_def)
    qed
  qed
qed

lemma buildHandler_step:
  assumes h1: "\<forall>w u w'. init (H r) w = (Inr u, w') \<longrightarrow>
                 ready (H r) w' \<and> supportedFormats (H r) w' \<noteq> None"
      and h2: "\<forall>q w. ready (H r) w \<longrightarrow> ready (H r) (snd (init (H q) w))"
  shows "initOnceStep H r s (buildHandler H s q)"
proof -
  obtain b s1 where c: "cacheFormats H s q = (b, s1)" by (cases "cacheFormats H s q")
  with cacheFormats_step [OF h1 h2, of s q] have s1: "initOnceStep H r s s1" by simp
  show ?thesis
  proof (cases "b \<and> supportedFormatCache s1 (handler_name (H q)) \<noteq> None")
    case False
    with c have "buildHandler H s q = s1" by (cases b) (auto simp: buildHandler_def)
    with s1 show ?thesis by simp
  next
    case True
    then obtain fs where "supportedFormatCache s1 (handler_name (H q)) = Some fs" by auto
    with c True have "buildHandler H s q = s1\<lparr>allOptions := allOptions s1 @ handlerOptions q fs\<rparr>"
      by (simp add: buildHandler_def)
    with initOnceStep_after [OF s1, where evs = "[]"
        and ?s2.0 = "s1\<lparr>allOptions := allOptions s1 @ handlerOptions q fs\<rparr>"]
    show ?thesis by simp
  qed
qed

lemma buildHandlers_step:
  assumes h1: "\<forall>w u w'. init (H r) w = (Inr u, w') \<longrightarrow>
                 ready (H r) w' \<and> supportedFormats (H r) w' \<noteq> None"
      and h2: "\<forall>q w. ready (H r) w \<longrightarrow> ready (H r) (snd (init (H q) w))"
  shows "initOnceStep H r s (buildHandlers H s handlers)"
proof (induction handlers arbitrary: s)
  case Nil
  show ?case by (simp add: initOnceStep_same [where evs = "[]"])
next
  case (Cons q qs)
  from buildHandler_step [OF h1 h2, of s q] Cons.IH [of "buildHandler H s q"]
  show ?case by (simp add: initOnceStep_trans)
qed

lemma buildOptionList_step:
  assumes h1: "\<forall>w u w'. init (H r) w = (Inr u, w') \<longrightarrow>
                 ready (H r) w' \<and> supportedFormats (H r) w' \<noteq> None"
      and h2: "\<forall>q w. ready (H r) w \<longrightarrow> ready (H r) (snd (init (H q) w))"
  shows "initOnceStep H r s (buildOptionList H handlers s)"
  unfolding buildOptionList_def
  by (rule initOnceStep_before [OF buildHandlers_step [OF h1 h2], where evs = "[]"]) simp_all

lemma prepareHandler_step:
  assumes h1: "\<forall>w u w'. init (H r) w = (Inr u, w') \<longrightarrow>
                 ready (H r) w' \<and> supportedFormats (H r) w' \<noteq> None"
      and h2: "\<forall>q w. ready (H r) w \<longrightarrow> ready (H r) (snd (init (H q) w))"
  shows "initOnceStep H r s (snd (prepareHandler H s q))"
proof (cases "ready (H q) (world s)")
  case True
  then have "snd (prepareHandler H s q) = s" by (simp add: prepareHandler_def Let_def)
  then show ?thesis by (simp add: initOnceStep_same [where evs = "[]"])
next
  case False
  obtain res w where i: "init (H q) (world s) = (res, w)"
    by (cases "init (H q) (world s)")
  show ?thesis
  proof (rule initOnceStep_init [OF h1 h2 i])
    show "trace (snd (prepareHandler H s q)) = trace s @ [InitCall q (\<not> isl res)]"
      using False i by (auto simp: prepareHandler_def Let_def split: sum.splits option.splits)
    show "world (snd (prepareHandler H s q)) = w"
      using False i by (auto simp: prepareHandler_def Let_def split: sum.splits option.splits)
    show "supportedFormatCache s (handler_name (H q)) = None \<or> \<not> ready (H q) (world s)"
      using False by simp
    show "supportedFormatCache (snd (prepareHandler H s q)) = supportedFormatCache s
          \<or> (\<exists>fs. \<not> isl res \<and> supportedFormats (H q) w = Some fs
                \<and> supportedFormatCache (snd (prepareHandler H s q)) =
                    (supportedFormatCache s)(handler_name (H q) \<mapsto> fs))"
      using False i by (auto simp: prepareHandler_def Let_def split: sum.splits option.splits)
    show "q = r \<and> \<not> isl res
            \<and> (supportedFormatCache s (handler_name (H r)) \<noteq> None
                \<or> handler_name (H r) \<noteq> ''imagesToPdf'') \<longrightarrow>
          supportedFormatCache (snd (prepareHandler H s q)) (handler_name (H r)) \<noteq> None"
    proof
      assume a: "q = r \<and> \<not> isl res
            \<and> (supportedFormatCache s (handler_name (H r)) \<noteq> None
                \<or> handler_name (H r) \<noteq> ''imagesToPdf'')"
      then obtain u where "res = Inr u" by (cases res) auto
      with a i h1 obtain fs where "supportedFormats (H q) w = Some fs" by blast
      with False i \<open>res = Inr u\<close> a
      show "supportedFormatCache (snd (prepareHandler H s q)) (handler_name (H r)) \<noteq> None"
        by (simp add: prepareHandler_def Let_def)
    qed
  qed
qed

lemma runConvert_step:
  assumes h3: "\<forall>q w st f i fo. ready (H r) w \<longrightarrow>
                 ready (H r) (snd (snd (doConvert (H q) w st f i fo)))"
  shows "initOnceStep H r s (snd (runConvert H s supported files prev nxt))"
proof (cases supported)
  case None
  then show ?thesis by (simp add: runConvert_def initOnceStep_same [where evs = "[]"])
next
  case (Some fs)
  let ?i = "find (\<lambda>c. mime c = mime (fmt prev) \<and> fmt_from c) fs"
  obtain res st w where d: "doConvert (H (handler nxt)) (world s) (heap s) files ?i (fmt nxt) =
      (res, st, w)"
    by (cases "doConvert (H (handler nxt)) (world s) (heap s) files ?i (fmt nxt)") auto
  show ?thesis
  proof (rule initOnceStep_convert [where evs = "[ConvertCall (handler nxt)]"
        and q = "handler nxt" and st = "heap s" and f = files and i = ?i and fo = "fmt nxt"])
    show "trace (snd (runConvert H s supported files prev nxt)) =
        trace s @ [ConvertCall (handler nxt)]"
      using Some d by (auto simp: runConvert_def Let_def split: sum.splits)
    show "initCalls [ConvertCall (handler nxt)] = []" by simp
    show "world (snd (runConvert H s supported files prev nxt)) =
        snd (snd (doConvert (H (handler nxt)) (world s) (heap s) files ?i (fmt nxt)))"
      using Some d by (auto simp: runConvert_def Let_def split: sum.splits)
    show "supportedFormatCache (snd (runConvert H s supported files prev nxt)) =
        supportedFormatCache s"
      using Some d by (auto simp: runConvert_def Let_def split: sum.splits)
    show "\<forall>q w st f i fo. ready (H r) w \<longrightarrow>
        ready (H r) (snd (snd (doConvert (H q) w st f i fo)))"
      by (rule h3)
  qed
qed

lemma convertHop_step:
  assumes h1: "\<forall>w u w'. init (H r) w = (Inr u, w') \<longrightarrow>
                 ready (H r) w' \<and> supportedFormats (H r) w' \<noteq> None"
      and h2: "\<forall>q w. ready (H r) w \<longrightarrow> ready (H r) (snd (init (H q) w))"
      and h3: "\<forall>q w st f i fo. ready (H r) w \<longrightarrow>
                 ready (H r) (snd (snd (doConvert (H q) w st f i fo)))"
  shows "initOnceStep H r s (snd (convertHop H s files prev nxt))"
proof -
  obtain a s1 where p: "prepareHandler H s (handler nxt) = (a, s1)"
    by (cases "prepareHandler H s (handler nxt)")
  with prepareHandler_step [OF h1 h2, of s "handler nxt"] have s1: "initOnceStep H r s s1"
    by simp
  show ?thesis
  proof (cases a)
    case None
    with p s1 show ?thesis by (simp add: convertHop_def)
  next
    case (Some supported)
    from s1 runConvert_step [OF h3, of s1 supported files prev nxt]
    have "initOnceStep H r s (snd (runConvert H s1 supported files prev nxt))"
      by (rule initOnceStep_trans)
    with p Some show ?thesis by (simp add: convertHop_def)
  qed
qed

lemma convertHops_step:
  assumes h1: "\<forall>w u w'. init (H r) w = (Inr u, w') \<longrightarrow>
                 ready (H r) w' \<and> supportedFormats (H r) w' \<noteq> None"
      and h2: "\<forall>q w. ready (H r) w \<longrightarrow> ready (H r) (snd (init (H q) w))"
      and h3: "\<forall>q w st f i fo. ready (H r) w \<longrightarrow>
                 ready (H r) (snd (snd (doConvert (H q) w st f i fo)))"
  shows "initOnceStep H r s (snd (convertHops H s files path))"
  using assms
proof (induction H s files path rule: convertHops.induct)
  case (1 H s files prev nxt rest)
  obtain a s1 where p: "convertHop H s files prev nxt = (a, s1)"
    by (cases "convertHop H s files prev nxt")
  with convertHop_step [OF "1.prems", of s files prev nxt] have s1: "initOnceStep H r s s1"
    by simp
  show ?case
  proof (cases a)
    case None
    with p s1 show ?thesis by simp
  next
    case (Some out)
    from "1.IH" [OF p [symmetric] Some "1.prems"]
    have "initOnceStep H r s1 (snd (convertHops H s1 out (nxt # rest)))" .
    with s1 have "initOnceStep H r s (snd (convertHops H s1 out (nxt # rest)))"
      by (rule initOnceStep_trans)
    with p Some show ?thesis by simp
  qed
qed (simp_all add: initOnceStep_same [where evs = "[]"])

lemma attemptConvertPath_step:
  assumes h1: "\<forall>w u w'. init (H r) w = (Inr u, w') \<longrightarrow>
                 ready (H r) w' \<and> supportedFormats (H r) w' \<noteq> None"
      and h2: "\<forall>q w. ready (H r) w \<longrightarrow> ready (H r) (snd (init (H q) w))"
      and h3: "\<forall>q w st f i fo. ready (H r) w \<longrightarrow>
                 ready (H r) (snd (snd (doConvert (H q) w st f i fo)))"
  shows "initOnceStep H r s (snd (attemptConvertPath H s files path))"
proof -
  let ?s0 = "s\<lparr>trace := trace s @ [Attempt path]\<rparr>"
  have "initOnceStep H r s (snd (convertHops H ?s0 files path))"
    by (rule initOnceStep_before [OF convertHops_step [OF h1 h2 h3],
          where evs = "[Attempt path]"]) simp_all
  then show ?thesis
    by (cases "convertHops H ?s0 files path")
       (auto simp: attemptConvertPath_def split: option.splits)
qed

lemma tryPaths_step:
  assumes h1: "\<forall>w u w'. init (H r) w = (Inr u, w') \<longrightarrow>
                 ready (H r) w' \<and> supportedFormats (H r) w' \<noteq> None"
      and h2: "\<forall>q w. ready (H r) w \<longrightarrow> ready (H r) (snd (init (H q) w))"
      and h3: "\<forall>q w st f i fo. ready (H r) w \<longrightarrow>
                 ready (H r) (snd (snd (doConvert (H q) w st f i fo)))"
  shows "initOnceStep H r s (snd (tryPaths H s files to paths))"
proof (induction paths arbitrary: s)
  case Nil
  show ?case by (simp add: initOnceStep_same [where evs = "[]"])
next
  case (Cons p ps)
  obtain a s1 where a: "attemptConvertPath H s files (useExactOutput to p) = (a, s1)"
    by (cases "attemptConvertPath H s files (useExactOutput to p)")
  with attemptConvertPath_step [OF h1 h2 h3, of s files "useExactOutput to p"]
  have s1: "initOnceStep H r s s1" by simp
  show ?case
  proof (cases a)
    case None
    from s1 Cons.IH [of s1] have "initOnceStep H r s (snd (tryPaths H s1 files to ps))"
      by (rule initOnceStep_trans)
    with a None show ?thesis by simp
  next
    case (Some res)
    with a s1 show ?thesis by simp
  qed
qed

lemma tryConvertByTraversing_step:
  assumes h1: "\<forall>w u w'. init (H r) w = (Inr u, w') \<longrightarrow>
                 ready (H r) w' \<and> supportedFormats (H r) w' \<noteq> None"
      and h2: "\<forall>q w. ready (H r) w \<longrightarrow> ready (H r) (snd (init (H q) w))"
      and h3: "\<forall>q w st f i fo. ready (H r) w \<longrightarrow>
                 ready (H r) (snd (snd (doConvert (H q) w st f i fo)))"
  shows "initOnceStep H r s (snd (tryConvertByTraversing H searchPath s files frm to))"
  unfolding tryConvertByTraversing_def
  by (rule initOnceStep_before [OF tryPaths_step [OF h1 h2 h3],
        where evs = "[SearchCall frm to (simpleMode s)]"]) simp_all

lemma convertFile_step:
  assumes h1: "\<forall>w u w'. init (H r) w = (Inr u, w') \<longrightarrow>
                 ready (H r) w' \<and> supportedFormats (H r) w' \<noteq> None"
      and h2: "\<forall>q w. ready (H r) w \<longrightarrow> ready (H r) (snd (init (H q) w))"
      and h3: "\<forall>q w st f i fo. ready (H r) w \<longrightarrow>
                 ready (H r) (snd (snd (doConvert (H q) w st f i fo)))"
  shows "initOnceStep H r s
           (fst (convertFile H searchPath inputOption globalOutputOption s p bf))"
proof (cases "fileOutputOption s globalOutputOption bf")
  case None
  then show ?thesis by (simp add: convertFile_def initOnceStep_same [where evs = "[]"])
next
  case (Some outputOption)
  show ?thesis
  proof (cases "mime (fmt inputOption) = mime (fmt outputOption)")
    case True
    with Some show ?thesis
      by (simp add: convertFile_def Let_def
          initOnceStep_same [where evs = "[Download (bytes (srcFile bf)) (name (srcFile bf))
                                            (mime (fmt inputOption))]"])
  next
    case False
    let ?s0 = "s\<lparr>heap := heap s @ [[\<lparr>name = name (srcFile bf), bytes = bytes (srcFile bf)\<rparr>]]\<rparr>"
    let ?t = "tryConvertByTraversing H searchPath ?s0 (length (heap s)) inputOption outputOption"
    have "initOnceStep H r s (snd ?t)"
      by (rule initOnceStep_before [OF tryConvertByTraversing_step [OF h1 h2 h3],
            where evs = "[]"]) simp_all
    with Some False show ?thesis
      by (cases ?t) (auto simp: convertFile_def Let_def split: option.splits)
  qed
qed

lemma convertBatch_step:
  assumes h1: "\<forall>w u w'. init (H r) w = (Inr u, w') \<longrightarrow>
                 ready (H r) w' \<and> supportedFormats (H r) w' \<noteq> None"
      and h2: "\<forall>q w. ready (H r) w \<longrightarrow> ready (H r) (snd (init (H q) w))"
      and h3: "\<forall>q w st f i fo. ready (H r) w \<longrightarrow>
                 ready (H r) (snd (snd (doConvert (H q) w st f i fo)))"
  shows "initOnceStep H r s
           (fst (snd (convertBatch H searchPath inputOption globalOutputOption
                        conversionCancelled s p batchFiles)))"
proof (induction batchFiles arbitrary: conversionCancelled s p)
  case Nil
  show ?case by (simp add: initOnceStep_same [where evs = "[]"])
next
  case (Cons x xs)
  obtain bf clicked where x: "x = (bf, clicked)" by (cases x)
  show ?case
  proof (cases conversionCancelled)
    case True
    with x show ?thesis by (simp add: initOnceStep_same [where evs = "[]"])
  next
    case False
    obtain s1 p1 where f: "convertFile H searchPath inputOption globalOutputOption s p bf =
        (s1, p1)"
      by (cases "convertFile H searchPath inputOption globalOutputOption s p bf")
    with convertFile_step [OF h1 h2 h3, of s searchPath inputOption globalOutputOption p bf]
    have "initOnceStep H r s s1" by simp
    from this Cons.IH [where conversionCancelled = "conversionCancelled \<or> clicked"
        and s = s1 and p = p1]
    have "initOnceStep H r s
        (fst (snd (convertBatch H searchPath inputOption globalOutputOption
                     (conversionCancelled \<or> clicked) s1 p1 xs)))"
      by (rule initOnceStep_trans)
    with x False f show ?thesis by simp
  qed
qed

lemma convertButton_onclick_step:
  assumes h1: "\<forall>w u w'. init (H r) w = (Inr u, w') \<longrightarrow>
                 ready (H r) w' \<and> supportedFormats (H r) w' \<noteq> None"
      and h2: "\<forall>q w. ready (H r) w \<longrightarrow> ready (H r) (snd (init (H q) w))"
      and h3: "\<forall>q w st f i fo. ready (H r) w \<longrightarrow>
                 ready (H r) (snd (snd (doConvert (H q) w st f i fo)))"
  shows "initOnceStep H r s
           (convertButton_onclick H searchPath generateZip zipChecked inputOption
              globalOutputOption clickedEarly s batchFiles)"
proof -
  let ?p0 = "\<lparr>completedFiles = 0, failedFiles = 0, allOutputFiles = []\<rparr>"
  obtain c s1 p where b: "convertBatch H searchPath inputOption globalOutputOption clickedEarly
      s ?p0 batchFiles = (c, s1, p)"
    by (cases "convertBatch H searchPath inputOption globalOutputOption clickedEarly
                 s ?p0 batchFiles") auto
  with convertBatch_step [OF h1 h2 h3, of s searchPath inputOption globalOutputOption
      clickedEarly ?p0 batchFiles]
  have s1: "initOnceStep H r s s1" by simp
  have d: "initOnceStep H r s (s1\<lparr>trace := trace s1 @ downloadAll (allOutputFiles p)\<rparr>)"
    by (rule initOnceStep_after [OF s1, where evs = "downloadAll (allOutputFiles p)"])
       (simp_all add: downloadAll_def initCalls_downloads)
  have z: "initOnceStep H r s (s1\<lparr>trace := trace s1 @ [Download x y z]\<rparr>)" for x y z
    by (rule initOnceStep_after [OF s1, where evs = "[Download x y z]"]) simp_all
  from b d z show ?thesis
    by (simp add: convertButton_onclick_def)
qed

lemma initMergeHandler_step:
  assumes h1: "\<forall>w u w'. init (H r) w = (Inr u, w') \<longrightarrow>
                 ready (H r) w' \<and> supportedFormats (H r) w' \<noteq> None"
      and h2: "\<forall>q w. ready (H r) w \<longrightarrow> ready (H r) (snd (init (H q) w))"
      and m: "handler_name (H m) = ''imagesToPdf''"
  shows "initOnceStep H r s (snd (initMergeHandler H s m))"
proof (cases "ready (H m) (world s)")
  case True
  then have "snd (initMergeHandler H s m) = s" by (simp add: initMergeHandler_def)
  then show ?thesis by (simp add: initOnceStep_same [where evs = "[]"])
next
  case False
  obtain res w where i: "init (H m) (world s) = (res, w)"
    by (cases "init (H m) (world s)")
  have c: "supportedFormatCache (snd (initMergeHandler H s m)) = supportedFormatCache s"
    using False i by (auto simp: initMergeHandler_def split: sum.splits)
  show ?thesis
  proof (rule initOnceStep_init [OF h1 h2 i])
    show "trace (snd (initMergeHandler H s m)) = trace s @ [InitCall m (\<not> isl res)]"
      using False i by (auto simp: initMergeHandler_def split: sum.splits)
    show "world (snd (initMergeHandler H s m)) = w"
      using False i by (auto simp: initMergeHandler_def split: sum.splits)
    show "supportedFormatCache s (handler_name (H m)) = None \<or> \<not> ready (H m) (world s)"
      using False by simp
    show "supportedFormatCache (snd (initMergeHandler H s m)) = supportedFormatCache s
          \<or> (\<exists>fs. \<not> isl res \<and> supportedFormats (H m) w = Some fs
                \<and> supportedFormatCache (snd (initMergeHandler H s m)) =
                    (supportedFormatCache s)(handler_name (H m) \<mapsto> fs))"
      using c by simp
    show "m = r \<and> \<not> isl res
            \<and> (supportedFormatCache s (handler_name (H r)) \<noteq> None
                \<or> handler_name (H r) \<noteq> ''imagesToPdf'') \<longrightarrow>
          supportedFormatCache (snd (initMergeHandler H s m)) (handler_name (H r)) \<noteq> None"
      using c m by auto
  qed
qed

lemma handleMergeConvert_step:
  assumes h1: "\<forall>w u w'. init (H r) w = (Inr u, w') \<longrightarrow>
                 ready (H r) w' \<and> supportedFormats (H r) w' \<noteq> None"
      and h2: "\<forall>q w. ready (H r) w \<longrightarrow> ready (H r) (snd (init (H q) w))"
      and h3: "\<forall>q w st f i fo. ready (H r) w \<longrightarrow>
                 ready (H r) (snd (snd (doConvert (H q) w st f i fo)))"
  shows "initOnceStep H r s
           (handleMergeConvert H handlers normalizeMimeType s batchFiles cancelled)"
proof -
  let ?imageFiles = "filter (\<lambda>(bf, ty). isImageType ty) batchFiles"
  let ?res = "handleMergeConvert H handlers normalizeMimeType s batchFiles cancelled"
  note same = initOnceStep_same [where evs = "[]"]
  show ?thesis
  proof (cases "length ?imageFiles < 2")
    case True
    then show ?thesis by (simp add: handleMergeConvert_def same)
  next
    case long: False
    show ?thesis
    proof (cases "find (\<lambda>h. handler_name (H h) = ''imagesToPdf'') handlers")
      case None
      with long show ?thesis by (simp add: handleMergeConvert_def same)
    next
      case (Some m)
      then have m: "handler_name (H m) = ''imagesToPdf''"
        by (auto simp: find_Some_iff)
      obtain ok s1 where i: "initMergeHandler H s m = (ok, s1)"
        by (cases "initMergeHandler H s m")
      with initMergeHandler_step [OF h1 h2 m, of s] have s1: "initOnceStep H r s s1"
        by simp
      let ?fs = "supportedFormats (H m) (world s1)"
      let ?in = "find (\<lambda>f. mime f = normalizeMimeType (snd (hd ?imageFiles)) \<and> fmt_from f)
                   (the ?fs)"
      let ?out = "find (\<lambda>f. internal f = ''pdf'' \<and> fmt_to f) (the ?fs)"
      show ?thesis
      proof (cases "ok \<and> \<not> cancelled \<and> ?fs \<noteq> None \<and> ?in \<noteq> None \<and> ?out \<noteq> None")
        case False
        with long Some i have "?res = s1"
          by (cases ok) (auto simp: handleMergeConvert_def Let_def split: option.splits)
        with s1 show ?thesis by simp
      next
        case True
        then obtain fs inputFormat outputFormat where fs: "?fs = Some fs"
          and inF: "find (\<lambda>f. mime f = normalizeMimeType (snd (hd ?imageFiles)) \<and> fmt_from f)
                      fs = Some inputFormat"
          and outF: "find (\<lambda>f. internal f = ''pdf'' \<and> fmt_to f) fs = Some outputFormat"
          by auto
        let ?st0 = "heap s1 @ [map (\<lambda>(bf, ty). srcFile bf) ?imageFiles]"
        obtain res st w where d: "doConvert (H m) (world s1) ?st0 (length (heap s1))
            (Some inputFormat) outputFormat = (res, st, w)"
          by (cases "doConvert (H m) (world s1) ?st0 (length (heap s1))
                       (Some inputFormat) outputFormat") auto
        let ?evs = "ConvertCall m #
            (case res of Inl e \<Rightarrow> []
             | Inr result \<Rightarrow> map (\<lambda>f. Download (bytes f) (name f) ''application/pdf'')
                               (readFiles st result))"
        have r: "?res = s1\<lparr>world := w, heap := st, trace := trace s1 @ ?evs\<rparr>"
          using long Some i True fs inF outF d
          by (cases res) (simp_all add: handleMergeConvert_def Let_def)
        have "initOnceStep H r s1 (s1\<lparr>world := w, heap := st, trace := trace s1 @ ?evs\<rparr>)"
        proof (rule initOnceStep_convert [where evs = ?evs and q = m and st = ?st0
              and f = "length (heap s1)" and i = "Some inputFormat" and fo = outputFormat])
          show "initCalls ?evs = []"
            by (cases res) (simp_all add: initCalls_downloads)
          show "world (s1\<lparr>world := w, heap := st, trace := trace s1 @ ?evs\<rparr>) =
              snd (snd (doConvert (H m) (world s1) ?st0 (length (heap s1))
                          (Some inputFormat) outputFormat))"
            using d by simp
          show "\<forall>q w st f i fo. ready (H r) w \<longrightarrow>
              ready (H r) (snd (snd (doConvert (H q) w st f i fo)))"
            by (rule h3)
        qed simp_all
        with s1 r show ?thesis by (simp add: initOnceStep_trans)
      qed
    qed
  qed
qed

lemma runOperation_step:
  assumes h1: "\<forall>w u w'. init (H r) w = (Inr u, w') \<longrightarrow>
                 ready (H r) w' \<and> supportedFormats (H r) w' \<noteq> None"
      and h2: "\<forall>q w. ready (H r) w \<longrightarrow> ready (H r) (snd (init (H q) w))"
      and h3: "\<forall>q w st f i fo. ready (H r) w \<longrightarrow>
                 ready (H r) (snd (snd (doConvert (H q) w st f i fo)))"
  shows "initOnceStep H r s (runOperation H handlers normalizeMimeType searchPath generateZip s x)"
proof (cases x)
  case BuildOptions
  then show ?thesis by (simp add: buildOptionList_step [OF h1 h2])
next
  case ToggleMode
  have "initOnceStep H r s (buildOptionList H handlers (s\<lparr>simpleMode := \<not> simpleMode s\<rparr>))"
    by (rule initOnceStep_before [OF buildOptionList_step [OF h1 h2], where evs = "[]"])
       simp_all
  with ToggleMode show ?thesis by simp
next
  case (ClickConvert zipChecked inputOption globalOutputOption clickedEarly batchFiles)
  then show ?thesis by (simp add: convertButton_onclick_step [OF h1 h2 h3])
next
  case (ClickMerge batchFiles cancelled)
  then show ?thesis by (simp add: handleMergeConvert_step [OF h1 h2 h3])
qed

lemma runOperations_step:
  assumes h1: "\<forall>w u w'. init (H r) w = (Inr u, w') \<longrightarrow>
                 ready (H r) w' \<and> supportedFormats (H r) w' \<noteq> None"
      and h2: "\<forall>q w. ready (H r) w \<longrightarrow> ready (H r) (snd (init (H q) w))"
      and h3: "\<forall>q w st f i fo. ready (H r) w \<longrightarrow>
                 ready (H r) (snd (snd (doConvert (H q) w st f i fo)))"
  shows "initOnceStep H r s
           (runOperations H handlers normalizeMimeType searchPath generateZip s ops)"
proof (induction ops arbitrary: s)
  case Nil
  show ?case by (simp add: initOnceStep_same [where evs = "[]"])
next
  case (Cons x xs)
  from runOperation_step [OF h1 h2 h3, of s handlers normalizeMimeType searchPath generateZip x]
    Cons.IH [of "runOperation H handlers normalizeMimeType searchPath generateZip s x"]
  show ?case by (simp add: initOnceStep_trans)
qed

text \<open>
  Claim C7, as stated, at concrete inputs. (a) A \<^verbatim>\<open>LazyHandler\<close> whose import fails is
  not in the cache; \<^verbatim>\<open>buildOptionList\<close> calls its \<^verbatim>\<open>init\<close>, which throws, and the next
  \<^verbatim>\<open>buildOptionList\<close> (a change of mode) calls it again: the initializer runs twice.
  (b) The \<^verbatim>\<open>init\<close> of handler 6 returns and leaves the handler not ready: one path
  attempt with two hops through it calls \<^verbatim>\<open>init\<close> twice. (c) The \<^verbatim>\<open>init\<close> of handler 7
  returns and leaves \<^verbatim>\<open>supportedFormats\<close> undefined: nothing is cached and the next
  \<^verbatim>\<open>buildOptionList\<close> calls \<^verbatim>\<open>init\<close> again. (d) The merge flow initialises the handler
  named \<^verbatim>\<open>imagesToPdf\<close> and caches nothing: when the name is not cached, the next
  \<^verbatim>\<open>buildOptionList\<close> calls \<^verbatim>\<open>init\<close> again. (e) A handler whose \<^verbatim>\<open>doConvert\<close> clears
  its ready flag is initialised again by the next hop. In (b) to (e) every call of
  \<^verbatim>\<open>init\<close> returns.
\<close>

theorem initializer_runs_once_counterexample:
  "supportedFormatCache ex_lazy_s (handler_name (ex_lazy_H 0)) = None
   \<and> trace (buildOptionList ex_lazy_H [0] (buildOptionList ex_lazy_H [0] ex_lazy_s)) =
       [InitCall 0 False, InitCall 0 False]
   \<and> trace (snd (attemptConvertPath ex_H ex_s 0
                   [ex_node 0 ex_png, ex_node 6 ex_png, ex_node 6 ex_jpeg])) =
       [Attempt [ex_node 0 ex_png, ex_node 6 ex_png, ex_node 6 ex_jpeg],
        InitCall 6 True, ConvertCall 6, InitCall 6 True, ConvertCall 6]
   \<and> initAfterSuccess 6 False (trace (snd (attemptConvertPath ex_H ex_s 0
                   [ex_node 0 ex_png, ex_node 6 ex_png, ex_node 6 ex_jpeg])))
   \<and> trace (buildOptionList ex_H [7] (buildOptionList ex_H [7] ex_s)) =
       [InitCall 7 True, InitCall 7 True]
   \<and> initAfterSuccess 7 False (trace (buildOptionList ex_H [7] (buildOptionList ex_H [7] ex_s)))
   \<and> trace (runOperations (ex_flag_H False) [0] (\<lambda>m. m) ex_searchPath (\<lambda>fs. []) ex_flag_s
              [ClickMerge ex_images False, ToggleMode]) =
       [InitCall 0 True, ConvertCall 0, Download [37, 80] ''merged.pdf'' ''application/pdf'',
        InitCall 0 True]
   \<and> initAfterSuccess 0 False
        (trace (runOperations (ex_flag_H False) [0] (\<lambda>m. m) ex_searchPath (\<lambda>fs. []) ex_flag_s
                  [ClickMerge ex_images False, ToggleMode]))
   \<and> trace (snd (attemptConvertPath (ex_flag_H True) ex_flag_s 0
                   [ex_node 0 ex_png, ex_node 0 ex_pdf, ex_node 0 ex_pdf])) =
       [Attempt [ex_node 0 ex_png, ex_node 0 ex_pdf, ex_node 0 ex_pdf],
        InitCall 0 True, ConvertCall 0, InitCall 0 True, ConvertCall 0]
   \<and> initAfterSuccess 0 False (trace (snd (attemptConvertPath (ex_flag_H True) ex_flag_s 0
                   [ex_node 0 ex_png, ex_node 0 ex_pdf, ex_node 0 ex_pdf])))"
proof -
  have a: "supportedFormatCache ex_lazy_s (handler_name (ex_lazy_H 0)) = None
      \<and> trace (buildOptionList ex_lazy_H [0] (buildOptionList ex_lazy_H [0] ex_lazy_s)) =
          [InitCall 0 False, InitCall 0 False]"
    by (simp add: ex_lazy_s_def ex_lazy_H_def LazyHandler_def LazyHandler_init_def
        newLazyState_def buildOptionList_def buildHandler_def cacheFormats_def)
  have b: "trace (snd (attemptConvertPath ex_H ex_s 0
                   [ex_node 0 ex_png, ex_node 6 ex_png, ex_node 6 ex_jpeg])) =
       [Attempt [ex_node 0 ex_png, ex_node 6 ex_png, ex_node 6 ex_jpeg],
        InitCall 6 True, ConvertCall 6, InitCall 6 True, ConvertCall 6]"
    by (simp add: ex_defs attemptConvertPath_def convertHop_def prepareHandler_def runConvert_def)
  have c: "trace (buildOptionList ex_H [7] (buildOptionList ex_H [7] ex_s)) =
       [InitCall 7 True, InitCall 7 True]"
    by (simp add: ex_defs buildOptionList_def buildHandler_def cacheFormats_def)
  have d: "trace (runOperations (ex_flag_H False) [0] (\<lambda>m. m) ex_searchPath (\<lambda>fs. []) ex_flag_s
              [ClickMerge ex_images False, ToggleMode]) =
       [InitCall 0 True, ConvertCall 0, Download [37, 80] ''merged.pdf'' ''application/pdf'',
        InitCall 0 True]"
    by (simp add: ex_flag_H_def ex_flag_s_def ex_images_def ex_png_def ex_pdf_def
        handleMergeConvert_def initMergeHandler_def isImageType_def readFiles_def
        buildOptionList_def buildHandler_def cacheFormats_def)
  have e: "trace (snd (attemptConvertPath (ex_flag_H True) ex_flag_s 0
                   [ex_node 0 ex_png, ex_node 0 ex_pdf, ex_node 0 ex_pdf])) =
       [Attempt [ex_node 0 ex_png, ex_node 0 ex_pdf, ex_node 0 ex_pdf],
        InitCall 0 True, ConvertCall 0, InitCall 0 True, ConvertCall 0]"
    by (simp add: ex_flag_H_def ex_flag_s_def ex_node_def ex_png_def ex_pdf_def readFiles_def
        attemptConvertPath_def convertHop_def prepareHandler_def runConvert_def)
  show ?thesis
    unfolding b c d e using a by simp
qed

text \<open>
  Claim C7, amended. For a handler whose name is in the cache, \<^verbatim>\<open>buildOptionList\<close> does
  not call \<^verbatim>\<open>init\<close> and keeps the cached formats. An \<^verbatim>\<open>init\<close> that threw may be called
  again, so the initializer can run more than once. For the operations of the page
  (\<^verbatim>\<open>buildOptionList\<close> when the page is loaded or the mode changes, a batch conversion, a
  merge), run one after another in any number and order from any state: if \<^verbatim>\<open>init\<close> of
  handler \<open>r\<close>, whenever it returns, leaves \<open>r\<close> ready with \<^verbatim>\<open>supportedFormats\<close> defined,
  and no \<^verbatim>\<open>init\<close> or \<^verbatim>\<open>doConvert\<close> of any handler clears the ready flag of \<open>r\<close>, then a
  cache entry under the name of \<open>r\<close> is kept; when the name of \<open>r\<close> is cached at the
  start or is not \<^verbatim>\<open>imagesToPdf\<close>, no operation calls \<^verbatim>\<open>init\<close> on \<open>r\<close> after a call of
  it that returned; and when \<open>r\<close> is cached and ready at the start, no operation calls
  its \<^verbatim>\<open>init\<close> at all.
\<close>

theorem init_not_repeated_after_success:
  "(supportedFormatCache s (handler_name (H r)) \<noteq> None \<longrightarrow>
      r \<notin> set (drop (length (initCalls (trace s)))
                 (initCalls (trace (buildOptionList H handlers s))))
      \<and> supportedFormatCache (buildOptionList H handlers s) (handler_name (H r)) =
          supportedFormatCache s (handler_name (H r)))
   \<and> ((\<forall>w u w'. init (H r) w = (Inr u, w') \<longrightarrow>
          ready (H r) w' \<and> supportedFormats (H r) w' \<noteq> None)
       \<and> (\<forall>q w. ready (H r) w \<longrightarrow> ready (H r) (snd (init (H q) w)))
       \<and> (\<forall>q w st f i fo. ready (H r) w \<longrightarrow>
             ready (H r) (snd (snd (doConvert (H q) w st f i fo))))
       \<longrightarrow>
         (supportedFormatCache s (handler_name (H r)) \<noteq> None \<longrightarrow>
            supportedFormatCache
              (runOperations H handlers normalizeMimeType searchPath generateZip s ops)
              (handler_name (H r)) \<noteq> None)
         \<and> (supportedFormatCache s (handler_name (H r)) \<noteq> None
              \<or> handler_name (H r) \<noteq> ''imagesToPdf'' \<longrightarrow>
            \<not> initAfterSuccess r False
                (drop (length (trace s))
                   (trace (runOperations H handlers normalizeMimeType searchPath generateZip
                             s ops))))
         \<and> (supportedFormatCache s (handler_name (H r)) \<noteq> None \<and> ready (H r) (world s) \<longrightarrow>
            r \<notin> set (initCalls
                (drop (length (trace s))
                   (trace (runOperations H handlers normalizeMimeType searchPath generateZip
                             s ops))))))"
proof -
  let ?c = "\<lambda>s. supportedFormatCache s (handler_name (H r)) \<noteq> None"
  let ?s' = "runOperations H handlers normalizeMimeType searchPath generateZip s ops"
  have A: "r \<notin> set (drop (length (initCalls (trace s)))
                 (initCalls (trace (buildOptionList H handlers s))))"
    if c: "?c s"
  proof -
    from buildHandlers_initCalls_uncached [of H "s\<lparr>allOptions := []\<rparr>" handlers] obtain xs where
      xs: "initCalls (trace (buildOptionList H handlers s)) = initCalls (trace s) @ xs"
      and un: "list_all (\<lambda>q. supportedFormatCache s (handler_name (H q)) = None) xs"
      by (auto simp: buildOptionList_def)
    from un c have "r \<notin> set xs" by (auto simp: list_all_iff)
    with xs show ?thesis by simp
  qed
  have B: "supportedFormatCache (buildOptionList H handlers s) (handler_name (H r)) =
          supportedFormatCache s (handler_name (H r))"
    if c: "?c s"
  proof -
    from c obtain fs0 where
      "supportedFormatCache (s\<lparr>allOptions := []\<rparr>) (handler_name (H r)) = Some fs0"
      by auto
    from buildHandlers_cache_kept [OF this, of H handlers] this show ?thesis
      by (simp add: buildOptionList_def)
  qed
  have C: "(?c s \<longrightarrow> ?c ?s')
         \<and> (?c s \<or> handler_name (H r) \<noteq> ''imagesToPdf'' \<longrightarrow>
            \<not> initAfterSuccess r False (drop (length (trace s)) (trace ?s')))
         \<and> (?c s \<and> ready (H r) (world s) \<longrightarrow>
            r \<notin> set (initCalls (drop (length (trace s)) (trace ?s'))))"
    if h: "(\<forall>w u w'. init (H r) w = (Inr u, w') \<longrightarrow>
              ready (H r) w' \<and> supportedFormats (H r) w' \<noteq> None)
           \<and> (\<forall>q w. ready (H r) w \<longrightarrow> ready (H r) (snd (init (H q) w)))
           \<and> (\<forall>q w st f i fo. ready (H r) w \<longrightarrow>
                 ready (H r) (snd (snd (doConvert (H q) w st f i fo))))"
  proof -
    from h have h1: "\<forall>w u w'. init (H r) w = (Inr u, w') \<longrightarrow>
              ready (H r) w' \<and> supportedFormats (H r) w' \<noteq> None"
      and h2: "\<forall>q w. ready (H r) w \<longrightarrow> ready (H r) (snd (init (H q) w))"
      and h3: "\<forall>q w st f i fo. ready (H r) w \<longrightarrow>
                 ready (H r) (snd (snd (doConvert (H q) w st f i fo)))"
      by blast+
    have "initOnceStep H r s ?s'"
      by (rule runOperations_step [OF h1 h2 h3])
    then obtain evs where t: "trace ?s' = trace s @ evs"
      and c: "?c s \<longrightarrow> ?c ?s'"
      and d: "?c s \<and> ready (H r) (world s) \<longrightarrow> r \<notin> set (initCalls evs)"
      and k: "?c s \<or> handler_name (H r) \<noteq> ''imagesToPdf'' \<longrightarrow>
                \<not> initAfterSuccess r False evs"
      unfolding initOnceStep_def by blast
    from t have "drop (length (trace s)) (trace ?s') = evs" by simp
    with c d k show ?thesis by simp
  qed
  from A B C show ?thesis by blast
qed

theorem init_not_repeated_after_success_witness:
  "0 \<notin> set (initCalls (trace (buildOptionList (ex_flag_H False) [0]
               (ex_flag_s\<lparr>supportedFormatCache := [''imagesToPdf'' \<mapsto> [ex_png, ex_pdf]]\<rparr>))))
   \<and> supportedFormatCache
        (runOperations (ex_flag_H False) [0] (\<lambda>m. m) ex_searchPath (\<lambda>fs. [])
           (ex_flag_s\<lparr>supportedFormatCache := [''imagesToPdf'' \<mapsto> [ex_png, ex_pdf]]\<rparr>)
           [BuildOptions, ClickMerge ex_images False, ToggleMode,
            ClickConvert False (ex_node 0 ex_png) (Some (ex_node 0 ex_pdf)) False
              [(\<lparr>srcFile = \<lparr>name = ''a.png'', bytes = [1]\<rparr>, outputFormatIndex = None\<rparr>, False)],
            ClickMerge ex_images False])
        ''imagesToPdf'' \<noteq> None
   \<and> \<not> initAfterSuccess 0 False
        (trace (runOperations (ex_flag_H False) [0] (\<lambda>m. m) ex_searchPath (\<lambda>fs. [])
           (ex_flag_s\<lparr>supportedFormatCache := [''imagesToPdf'' \<mapsto> [ex_png, ex_pdf]]\<rparr>)
           [BuildOptions, ClickMerge ex_images False, ToggleMode,
            ClickConvert False (ex_node 0 ex_png) (Some (ex_node 0 ex_pdf)) False
              [(\<lparr>srcFile = \<lparr>name = ''a.png'', bytes = [1]\<rparr>, outputFormatIndex = None\<rparr>, False)],
            ClickMerge ex_images False]))
   \<and> initCalls
        (trace (runOperations (ex_flag_H False) [0] (\<lambda>m. m) ex_searchPath (\<lambda>fs. [])
           (ex_flag_s\<lparr>supportedFormatCache := [''imagesToPdf'' \<mapsto> [ex_png, ex_pdf]]\<rparr>)
           [BuildOptions, ClickMerge ex_images False, ToggleMode,
            ClickConvert False (ex_node 0 ex_png) (Some (ex_node 0 ex_pdf)) False
              [(\<lparr>srcFile = \<lparr>name = ''a.png'', bytes = [1]\<rparr>, outputFormatIndex = None\<rparr>, False)],
            ClickMerge ex_images False])) = [0]
   \<and> 0 \<notin> set (initCalls
        (trace (runOperations (ex_flag_H False) [0] (\<lambda>m. m) ex_searchPath (\<lambda>fs. [])
           (ex_flag_s\<lparr>supportedFormatCache := [''imagesToPdf'' \<mapsto> [ex_png, ex_pdf]],
                      world := True\<rparr>)
           [BuildOptions, ClickMerge ex_images False, ToggleMode,
            ClickConvert False (ex_node 0 ex_png) (Some (ex_node 0 ex_pdf)) False
              [(\<lparr>srcFile = \<lparr>name = ''a.png'', bytes = [1]\<rparr>, outputFormatIndex = None\<rparr>, False)],
            ClickMerge ex_images False])))"
proof -
  let ?H = "ex_flag_H False"
  let ?s = "ex_flag_s\<lparr>supportedFormatCache := [''imagesToPdf'' \<mapsto> [ex_png, ex_pdf]]\<rparr>"
  let ?ops = "[BuildOptions, ClickMerge ex_images False, ToggleMode,
      ClickConvert False (ex_node 0 ex_png) (Some (ex_node 0 ex_pdf)) False
        [(\<lparr>srcFile = \<lparr>name = ''a.png'', bytes = [1]\<rparr>, outputFormatIndex = None\<rparr>, False)],
      ClickMerge ex_images False]"
  let ?run = "\<lambda>s. runOperations ?H [0] (\<lambda>m. m) ex_searchPath (\<lambda>fs. []) s ?ops"
  note T = init_not_repeated_after_success [where H = ?H and r = 0 and handlers = "[0]"
      and normalizeMimeType = "\<lambda>m. m" and searchPath = ex_searchPath
      and generateZip = "\<lambda>fs. []" and ops = ?ops and s = ?s]
  note U = init_not_repeated_after_success [where H = ?H and r = 0 and handlers = "[0]"
      and normalizeMimeType = "\<lambda>m. m" and searchPath = ex_searchPath
      and generateZip = "\<lambda>fs. []" and ops = ?ops and s = "?s\<lparr>world := True\<rparr>"]
  have n: "handler_name (?H 0) = ''imagesToPdf''" by (simp add: ex_flag_H_def)
  have c: "supportedFormatCache ?s (handler_name (?H 0)) \<noteq> None"
    and c': "supportedFormatCache (?s\<lparr>world := True\<rparr>) (handler_name (?H 0)) \<noteq> None"
    and rd: "ready (?H 0) (world (?s\<lparr>world := True\<rparr>))"
    and t0: "trace ?s = []" "trace (?s\<lparr>world := True\<rparr>) = []"
    by (simp_all add: ex_flag_H_def ex_flag_s_def)
  have h: "(\<forall>w u w'. init (?H 0) w = (Inr u, w') \<longrightarrow>
              ready (?H 0) w' \<and> supportedFormats (?H 0) w' \<noteq> None)
           \<and> (\<forall>q w. ready (?H 0) w \<longrightarrow> ready (?H 0) (snd (init (?H q) w)))
           \<and> (\<forall>q w st f i fo. ready (?H 0) w \<longrightarrow>
                 ready (?H 0) (snd (snd (doConvert (?H q) w st f i fo))))"
    by (simp add: ex_flag_H_def)
  from T c have "0 \<notin> set (drop (length (initCalls (trace ?s)))
      (initCalls (trace (buildOptionList ?H [0] ?s))))"
    by blast
  with t0 have one: "0 \<notin> set (initCalls (trace (buildOptionList ?H [0] ?s)))"
    by simp
  from T h c have "supportedFormatCache (?run ?s) (handler_name (?H 0)) \<noteq> None"
    by blast
  with n have two: "supportedFormatCache (?run ?s) ''imagesToPdf'' \<noteq> None"
    by simp
  from T h c have "\<not> initAfterSuccess 0 False (drop (length (trace ?s)) (trace (?run ?s)))"
    by blast
  with t0 have three: "\<not> initAfterSuccess 0 False (trace (?run ?s))"
    by simp
  have four: "initCalls (trace (?run ?s)) = [0]"
    by (simp add: ex_flag_H_def ex_flag_s_def ex_images_def ex_png_def ex_pdf_def ex_node_def
        ex_searchPath_def handleMergeConvert_def initMergeHandler_def isImageType_def
        readFiles_def buildOptionList_def buildHandler_def cacheFormats_def handlerOptions_def
        convertButton_onclick_def convertFile_def fileOutputOption_def
        tryConvertByTraversing_def useExactOutput_def attemptConvertPath_def convertHop_def
        prepareHandler_def runConvert_def initCalls_append downloadAll_def initCalls_downloads
        Let_def)
  from U h c' rd have "0 \<notin> set (initCalls (drop (length (trace (?s\<lparr>world := True\<rparr>)))
      (trace (?run (?s\<lparr>world := True\<rparr>)))))"
    by blast
  with t0 have five: "0 \<notin> set (initCalls (trace (?run (?s\<lparr>world := True\<rparr>))))"
    by simp
  from one two three four five show ?thesis by simp
qed

section \<open>Claims about the batch conversion\<close>

lemma convertBatch_cancelled:
  "convertBatch H sp i g True s p batch = (True, s, p)"
  by (cases batch) auto

lemma convertBatch_append:
  "convertBatch H sp i g c s p (xs @ ys) =
     (case convertBatch H sp i g c s p xs of (c1, s1, p1) \<Rightarrow> convertBatch H sp i g c1 s1 p1 ys)"
proof (induction xs arbitrary: c s p)
  case Nil
  then show ?case by simp
next
  case (Cons x xs)
  obtain bf clicked where x: "x = (bf, clicked)" by (cases x)
  show ?case
  proof (cases c)
    case True
    with x show ?thesis by (simp add: convertBatch_cancelled)
  next
    case False
    with x Cons.IH show ?thesis by (simp split: prod.splits)
  qed
qed

lemma convertBatch_no_click:
  "fst (convertBatch H sp i g False s p (map (\<lambda>b. (b, False)) bfs)) = False"
  by (induction bfs arbitrary: s p) (simp_all split: prod.splits)

text \<open>
  Claim C8. Let Cancel be clicked while the batch file \<open>bf\<close> is in flight, and not
  earlier. The loop then ends with the flag set, in the state and with the output files
  that converting the files up to and including \<open>bf\<close> gives when nobody clicks: the
  conversion in flight runs to its end, unchanged. The files after \<open>bf\<close> play no part.
  The click handler then downloads every output file collected so far, one by one; the
  files whose format needed no conversion were downloaded on the spot. A click before the
  first file stops the batch before anything is converted. The flag is read only by the
  loop over the batch: \<open>convertFile\<close> and the path executor have no access to it.
\<close>

theorem cancellation_between_files:
  "convertBatch H searchPath inputOption globalOutputOption False s p
       (map (\<lambda>b. (b, False)) earlier @ (bf, True) # rest) =
     (True, snd (convertBatch H searchPath inputOption globalOutputOption False s p
                   (map (\<lambda>b. (b, False)) (earlier @ [bf]))))
   \<and> convertButton_onclick H searchPath generateZip zipChecked inputOption globalOutputOption
       False s (map (\<lambda>b. (b, False)) earlier @ (bf, True) # rest) =
     (case convertBatch H searchPath inputOption globalOutputOption False s
             \<lparr>completedFiles = 0, failedFiles = 0, allOutputFiles = []\<rparr>
             (map (\<lambda>b. (b, False)) (earlier @ [bf])) of
        (c, s1, p1) \<Rightarrow> s1\<lparr>trace := trace s1 @ downloadAll (allOutputFiles p1)\<rparr>)
   \<and> convertButton_onclick H searchPath generateZip zipChecked inputOption globalOutputOption
       True s batchFiles = s"
proof -
  have step: "convertBatch H searchPath inputOption globalOutputOption False s q
       (map (\<lambda>b. (b, False)) earlier @ (bf, True) # rest) =
     (True, snd (convertBatch H searchPath inputOption globalOutputOption False s q
                   (map (\<lambda>b. (b, False)) (earlier @ [bf]))))" for q
  proof -
    obtain c1 s1 p1 where pre: "convertBatch H searchPath inputOption globalOutputOption False s q
        (map (\<lambda>b. (b, False)) earlier) = (c1, s1, p1)"
      by (cases "convertBatch H searchPath inputOption globalOutputOption False s q
            (map (\<lambda>b. (b, False)) earlier)")
    with convertBatch_no_click [of H searchPath inputOption globalOutputOption s q earlier]
    have c1: "c1 = False" by simp
    obtain s2 p2 where f: "convertFile H searchPath inputOption globalOutputOption s1 p1 bf = (s2, p2)"
      by (cases "convertFile H searchPath inputOption globalOutputOption s1 p1 bf")
    show ?thesis
      using pre c1 f
      by (simp add: convertBatch_append convertBatch_cancelled)
  qed
  have early: "convertButton_onclick H searchPath generateZip zipChecked inputOption
      globalOutputOption True s batchFiles = s"
    by (simp add: convertButton_onclick_def convertBatch_cancelled downloadAll_def)
  from step [of p] step [of "\<lparr>completedFiles = 0, failedFiles = 0, allOutputFiles = []\<rparr>"] early
  show ?thesis
    by (simp add: convertButton_onclick_def split: prod.splits)
qed

theorem cancellation_between_files_witness:
  "convertButton_onclick ex_H ex_searchPath (\<lambda>fs. []) True (ex_node 0 ex_png)
       (Some (ex_node 2 ex_jpeg)) False ex_s ex_batch =
     ex_s\<lparr>trace :=
       [SearchCall (ex_node 0 ex_png) (ex_node 2 ex_jpeg) True,
        Attempt [ex_node 0 ex_png, ex_node 2 ex_jpeg], ConvertCall 2,
        SearchCall (ex_node 0 ex_png) (ex_node 2 ex_jpeg) True,
        Attempt [ex_node 0 ex_png, ex_node 2 ex_jpeg], ConvertCall 2,
        Download [255, 1] ''a.jpg'' ''image/jpeg'',
        Download [255, 2] ''b.jpg'' ''image/jpeg''],
       heap :=
       [[\<lparr>name = ''a.png'', bytes = [137, 80]\<rparr>],
        [\<lparr>name = ''a.png'', bytes = [1]\<rparr>], [\<lparr>name = ''a.png'', bytes = [255, 1]\<rparr>],
        [\<lparr>name = ''b.png'', bytes = [2]\<rparr>], [\<lparr>name = ''b.png'', bytes = [255, 2]\<rparr>]]\<rparr>"
proof -
  have b: "ex_batch =
      map (\<lambda>b. (b, False)) [\<lparr>srcFile = \<lparr>name = ''a.png'', bytes = [1]\<rparr>, outputFormatIndex = None\<rparr>]
      @ (\<lparr>srcFile = \<lparr>name = ''b.png'', bytes = [2]\<rparr>, outputFormatIndex = None\<rparr>, True)
      # [(\<lparr>srcFile = \<lparr>name = ''c.png'', bytes = [3]\<rparr>, outputFormatIndex = None\<rparr>, False)]"
    by (simp add: ex_batch_def)
  show ?thesis
    unfolding b
    using cancellation_between_files [where H = ex_H and searchPath = ex_searchPath
        and generateZip = "\<lambda>fs. []" and zipChecked = True and inputOption = "ex_node 0 ex_png"
        and globalOutputOption = "Some (ex_node 2 ex_jpeg)" and s = ex_s
        and earlier = "[\<lparr>srcFile = \<lparr>name = ''a.png'', bytes = [1]\<rparr>, outputFormatIndex = None\<rparr>]"
        and bf = "\<lparr>srcFile = \<lparr>name = ''b.png'', bytes = [2]\<rparr>, outputFormatIndex = None\<rparr>"
        and rest = "[(\<lparr>srcFile = \<lparr>name = ''c.png'', bytes = [3]\<rparr>, outputFormatIndex = None\<rparr>, False)]"
        and p = "\<lparr>completedFiles = 0, failedFiles = 0, allOutputFiles = []\<rparr>"
        and batchFiles = "[]"]
    by (simp add: convertFile_def fileOutputOption_def tryConvertByTraversing_def
        ex_searchPath_def useExactOutput_def attemptConvertPath_def convertHop_def
        prepareHandler_def runConvert_def outputFiles_def buildOutputFilename_def
        toLowerCase_def downloadAll_def Let_def ex_defs)
qed

text \<open>
  Claim C10. For a batch file whose output option has the MIME type of the selected
  input option, the turn of the loop downloads the bytes of the input file under its own
  name and counts the file as completed. The state is otherwise unchanged: the trace
  gains no call of \<^verbatim>\<open>searchPath\<close> and no call of a handler, and no output file is
  collected.
\<close>

theorem same_mime_is_identity:
  assumes "fileOutputOption s globalOutputOption bf = Some outputOption"
      and "mime (fmt outputOption) = mime (fmt inputOption)"
  shows "convertFile H searchPath inputOption globalOutputOption s p bf =
           (s\<lparr>trace := trace s @
                [Download (bytes (srcFile bf)) (name (srcFile bf)) (mime (fmt inputOption))]\<rparr>,
            p\<lparr>completedFiles := completedFiles p + 1\<rparr>)"
  using assms by (simp add: convertFile_def)

theorem same_mime_is_identity_witness:
  "convertFile ex_H ex_searchPath (ex_node 0 ex_png) (Some (ex_node 1 ex_png)) ex_s
       \<lparr>completedFiles = 0, failedFiles = 0, allOutputFiles = []\<rparr>
       \<lparr>srcFile = \<lparr>name = ''a.png'', bytes = [1]\<rparr>, outputFormatIndex = None\<rparr> =
     (ex_s\<lparr>trace := [Download [1] ''a.png'' ''image/png'']\<rparr>,
      \<lparr>completedFiles = 1, failedFiles = 0, allOutputFiles = []\<rparr>)"
proof -
  have h1: "fileOutputOption ex_s (Some (ex_node 1 ex_png))
              \<lparr>srcFile = \<lparr>name = ''a.png'', bytes = [1]\<rparr>, outputFormatIndex = None\<rparr> =
            Some (ex_node 1 ex_png)"
    by (simp add: fileOutputOption_def)
  have h2: "mime (fmt (ex_node 1 ex_png)) = mime (fmt (ex_node 0 ex_png))"
    by (simp add: ex_node_def)
  show ?thesis
    using same_mime_is_identity [OF h1 h2, of ex_H ex_searchPath
        "\<lparr>completedFiles = 0, failedFiles = 0, allOutputFiles = []\<rparr>"]
    by (simp add: ex_defs)
qed

section \<open>Claims about the handler \<^verbatim>\<open>pdftoimg\<close>\<close>

text \<open>
  Claim C9. For every output format whose format code is neither \<open>png\<close> nor \<open>jpg\<close>,
  \<^verbatim>\<open>doConvert\<close> throws \<^verbatim>\<open>"Invalid output format."\<close>, whatever the input files, the input
  format, the preset and the rendering library do. In particular, when the JPEG descriptor
  that the handler declares has the format code \<open>jpeg\<close>, a conversion of the handler to
  its own declared descriptor throws, and leaves the handler as it was.
\<close>

theorem pdftoimg_rejects_other_formats:
  "(format outputFormat \<noteq> ''png'' \<and> format outputFormat \<noteq> ''jpg'' \<longrightarrow>
      pdftoimg_doConvert pdfToImg atob activePresetIndex inputFiles inputFormat outputFormat =
        Inl ''Invalid output format.'')
   \<and> (format jpeg = ''jpeg'' \<longrightarrow>
      doConvert (pdftoimgHandler pdfToImg atob pdf png jpeg) activePresetIndex st inputRef
          inputFormat jpeg =
        (Inl ''Invalid output format.'', st, activePresetIndex))"
  by (simp add: pdftoimg_doConvert_def pdftoimgHandler_def)

theorem pdftoimg_rejects_other_formats_witness:
  "pdftoimg_doConvert (\<lambda>bs m t p. Inr [''data:image/jpeg;base64,QUJD'']) (\<lambda>s. Inr s) 2
       [\<lparr>name = ''doc.pdf'', bytes = [37, 80, 68, 70]\<rparr>] (Some ex_png) ex_jpeg =
     Inl ''Invalid output format.''
   \<and> doConvert (pdftoimgHandler (\<lambda>bs m t p. Inr [''data:image/jpeg;base64,QUJD'']) (\<lambda>s. Inr s)
         ex_png ex_png ex_jpeg) 2 [[\<lparr>name = ''doc.pdf'', bytes = [37, 80, 68, 70]\<rparr>]] 0
         (Some ex_png) ex_jpeg =
     (Inl ''Invalid output format.'', [[\<lparr>name = ''doc.pdf'', bytes = [37, 80, 68, 70]\<rparr>]], 2)"
proof -
  have h1: "format ex_jpeg \<noteq> ''png'' \<and> format ex_jpeg \<noteq> ''jpg''"
    by (simp add: ex_jpeg_def)
  have h2: "format ex_jpeg = ''jpeg''"
    by (simp add: ex_jpeg_def)
  from pdftoimg_rejects_other_formats [where outputFormat = ex_jpeg and jpeg = ex_jpeg
      and pdfToImg = "\<lambda>bs m t p. Inr [''data:image/jpeg;base64,QUJD'']" and atob = "\<lambda>s. Inr s"
      and activePresetIndex = 2 and inputFiles = "[\<lparr>name = ''doc.pdf'', bytes = [37, 80, 68, 70]\<rparr>]"
      and st = "[[\<lparr>name = ''doc.pdf'', bytes = [37, 80, 68, 70]\<rparr>]]" and inputRef = 0
      and inputFormat = "Some ex_png" and pdf = ex_png and png = ex_png] h1 h2
  show ?thesis by blast
qed

end
